theory Spec2Isabelle
  imports Main "HOL-Library.Word" "HOL-Library.Sublist"
begin

section \<open>The expression planner of cel-go (interpreter/planner.go)\<close>

text \<open>
  The planner turns a proto \<open>Expr\<close> tree into a graph of \<open>Interpretable\<close> nodes.
  The embedding keeps the planner's own structure: one function per \<open>plan...\<close>
  method, the mutable \<open>identMap\<close> threaded as state, Go's \<open>(value, error)\<close> returns
  as a sum, and run-time panics (nil dereference, index out of range) as a fault of
  their own, distinct from a returned error.
\<close>

subsection \<open>Input: expressions, constants, references\<close>

text \<open>Node ids are \<open>int64\<close>; the planner only copies and compares them.\<close>

type_synonym id = int

text \<open>
  \<open>exprpb.Constant\<close>: the oneof \<open>ConstantKind\<close>, or no kind set. The numeric
  payloads are 64-bit patterns (a double by its IEEE-754 bits); they are copied, never
  computed with.
\<close>

datatype Constant =
    BoolValue bool
  | BytesValue string
  | DoubleValue "64 word"
  | Int64Value "64 word"
  | NullValue
  | StringValue string
  | Uint64Value "64 word"
  | NoConstantKind

text \<open>
  \<open>exprpb.Expr\<close>: \<open>NilExpr\<close> is the nil pointer (an absent call target, an absent
  operand), \<open>UnsetExpr\<close> a node whose oneof \<open>ExprKind\<close> is not set. The arguments
  follow the proto fields: Select (operand, field, test_only), Call (target, function,
  args), Struct (message_name, entries), Comprehension (iter_var, iter_range, accu_var,
  accu_init, loop_condition, loop_step, result).
\<close>

datatype expr =
    NilExpr
  | UnsetExpr id
  | ConstExpr id Constant
  | IdentExpr id string
  | SelectExpr id expr string bool
  | CallExpr id expr string "expr list"
  | ListExpr id "expr list"
  | StructExpr id string "entry list"
  | ComprehensionExpr id string expr string expr expr expr expr
and entry = Entry key_kind expr
and key_kind = FieldKey string | MapKey expr | NoKey

text \<open>\<open>exprpb.Reference\<close>: name, overload_id, value (nil when absent).\<close>

record reference =
  ref_Name :: string
  ref_OverloadId :: "string list"
  ref_Value :: "Constant option"

subsection \<open>Output: values, interpretable nodes, the store\<close>

text \<open>The values \<open>types.Bool\<close>, \<open>types.Bytes\<close>, ... that \<open>constValue\<close> builds.\<close>

datatype val =
    BoolVal bool
  | BytesVal string
  | DoubleVal "64 word"
  | IntVal "64 word"
  | NullVal
  | StringVal string
  | UintVal "64 word"

text \<open>
  An \<open>Interpretable\<close> is a pointer to a node. Pointer identity matters (the identifier
  cache shares nodes), so nodes live in a store and an interpretable is an address into
  it. Nodes are never updated once allocated; the store only grows.
\<close>

type_synonym addr = nat

text \<open>Function implementations (\<open>UnaryOp\<close>, \<open>BinaryOp\<close>, \<open>FunctionOp\<close>) are opaque handles.\<close>

type_synonym fn = nat

text \<open>
  The \<open>eval...\<close> structs. A resolver closure \<open>p.idResolver(ident)\<close> is determined by
  its identifier, so the field \<open>resolveID\<close> holds \<open>Some ident\<close>, or \<open>None\<close> for nil.
  An implementation field holds \<open>None\<close> for nil. The fields \<open>provider\<close> and
  \<open>adapter\<close> always hold the planner's own and are left out. \<open>EvalOther\<close> stands for
  any interpretable defined outside the planner, as a decorator may return.
\<close>

datatype node =
    EvalIdent id string "string option"
  | EvalTestOnly id string addr
  | EvalSelect id string addr "string option"
  | EvalConst id val
  | EvalZeroArity id fn
  | EvalUnary id string string addr int "fn option"
  | EvalBinary id string string addr addr int "fn option"
  | EvalVarArgs id string string "addr list" int "fn option"
  | EvalEq id addr addr
  | EvalNe id addr addr
  | EvalAnd id addr addr
  | EvalOr id addr addr
  | EvalConditional id addr addr addr
  | EvalList id "addr list"
  | EvalMap id "addr list" "addr list"
  | EvalObj id string "string list" "addr list"
  | EvalFold id string addr string addr addr addr addr
  | EvalOther string "addr list"

subsection \<open>Errors and panics\<close>

text \<open>
  The errors built with \<open>fmt.Errorf\<close>, by message: "unsupported expr: %v",
  "no such overload: %s" followed by the argument pattern, "unknown type: %s",
  "unknown constant type: %v"; and an error returned by a decorator.
\<close>

datatype error =
    UnsupportedExpr expr
  | NoSuchOverload string
  | UnknownType string
  | UnknownConstantType Constant
  | DecoratorError string

datatype panic = NilDereference | IndexOutOfRange

datatype fault = Error error | Panic panic

subsection \<open>The planner and its collaborators\<close>

text \<open>\<open>functions.Overload\<close>; a nil function field is \<open>None\<close>.\<close>

record overload =
  Operator :: string
  OperandTrait :: int
  Unary :: "fn option"
  Binary :: "fn option"
  Function :: "fn option"

text \<open>
  A decorator receives an interpretable and returns an interpretable or an error. It
  may read the graph built so far and allocate new nodes (a wrapper around its
  argument): it returns the nodes to append to the store and the resulting address.
\<close>

type_synonym decorator = "addr \<Rightarrow> node list \<Rightarrow> string + (node list \<times> addr)"

text \<open>
  The immutable fields of \<open>planner\<close>. The collaborators are interfaces, given by the
  methods the planner calls: \<open>disp.FindOverload\<close> (a nil result is \<open>None\<close>),
  \<open>provider.FindType\<close> (only its found flag is used), \<open>pkg.Package\<close> and
  \<open>pkg.ResolveCandidateNames\<close>.
\<close>

record planner =
  disp_FindOverload :: "string \<Rightarrow> overload option"
  provider_FindType :: "string \<Rightarrow> bool"
  pkg_Package :: string
  pkg_ResolveCandidateNames :: "string \<Rightarrow> string list"
  refMap :: "id \<rightharpoonup> reference"
  decorators :: "decorator list"

text \<open>The calls the planner makes on its collaborators, in the order made.\<close>

datatype event =
    FindOverload string
  | FindType string
  | Decorate nat addr

text \<open>
  What planning changes: the identifier cache \<open>identMap\<close>, the store of allocated
  nodes, and the record of collaborator calls.
\<close>

record pstate =
  identMap :: "string \<rightharpoonup> addr"
  heap :: "node list"
  calls :: "event list"

type_synonym 'a result = "(fault + 'a) \<times> pstate"

definition alloc :: "node \<Rightarrow> pstate \<Rightarrow> addr result" where
  "alloc n s = (Inr (length (heap s)), s\<lparr>heap := heap s @ [n]\<rparr>)"

definition record_call :: "event \<Rightarrow> pstate \<Rightarrow> pstate" where
  "record_call ev s = s\<lparr>calls := calls s @ [ev]\<rparr>"

text \<open>
  Modelled from the spec: the operator names of package \<open>common/operators\<close> are not
  in the source at hand. They are the function names the parser gives to the
  operators the spec writes \<open>&&\<close>, \<open>||\<close>, \<open>?:\<close>, \<open>==\<close> and \<open>!=\<close>.
\<close>

definition LogicalAnd :: string where "LogicalAnd = ''_&&_''"
definition LogicalOr :: string where "LogicalOr = ''_||_''"
definition Conditional :: string where "Conditional = ''_?_:_''"
definition Equals :: string where "Equals = ''_==_''"
definition NotEquals :: string where "NotEquals = ''_!=_''"

subsection \<open>decorate\<close>

text \<open>
  The loop of \<open>decorate\<close> over \<open>p.decorators\<close>; \<open>k\<close> is the position of the next
  decorator. The first error ends the loop.
\<close>

fun decorate_loop :: "decorator list \<Rightarrow> nat \<Rightarrow> addr \<Rightarrow> pstate \<Rightarrow> addr result" where
  "decorate_loop [] k i s = (Inr i, s)"
| "decorate_loop (dec # decs) k i s =
     (let s1 = record_call (Decorate k i) s in
      case dec i (heap s1) of
        Inl err \<Rightarrow> (Inl (Error (DecoratorError err)), s1)
      | Inr (new, j) \<Rightarrow> decorate_loop decs (Suc k) j (s1\<lparr>heap := heap s1 @ new\<rparr>))"

text \<open>
  \<open>decorate\<close> takes the result of a plan step. An error is passed on; a panic never
  reaches it (the stack unwinds), so it is passed on as well.
\<close>

definition decorate :: "planner \<Rightarrow> addr result \<Rightarrow> addr result" where
  "decorate p r =
     (case r of
        (Inl f, s) \<Rightarrow> (Inl f, s)
      | (Inr i, s) \<Rightarrow> decorate_loop (decorators p) 0 i s)"

subsection \<open>Identifiers and constants\<close>

definition planIdent :: "planner \<Rightarrow> id \<Rightarrow> string \<Rightarrow> pstate \<Rightarrow> addr result" where
  "planIdent p eid idName s =
     (case identMap s idName of
        Some i \<Rightarrow> (Inr i, s)
      | None \<Rightarrow>
          (let resolver = (if pkg_Package p \<noteq> [] then Some idName else None);
               i = length (heap s)
           in (Inr i, s\<lparr>identMap := (identMap s)(idName \<mapsto> i),
                        heap := heap s @ [EvalIdent eid idName resolver]\<rparr>)))"

fun constValue :: "Constant \<Rightarrow> error + val" where
  "constValue (BoolValue b) = Inr (BoolVal b)"
| "constValue (BytesValue b) = Inr (BytesVal b)"
| "constValue (DoubleValue d) = Inr (DoubleVal d)"
| "constValue (Int64Value i) = Inr (IntVal i)"
| "constValue NullValue = Inr NullVal"
| "constValue (StringValue s) = Inr (StringVal s)"
| "constValue (Uint64Value u) = Inr (UintVal u)"
| "constValue NoConstantKind = Inl (UnknownConstantType NoConstantKind)"

definition planConst :: "planner \<Rightarrow> id \<Rightarrow> Constant \<Rightarrow> pstate \<Rightarrow> addr result" where
  "planConst p eid c s =
     (case constValue c of
        Inl err \<Rightarrow> (Inl (Error err), s)
      | Inr v \<Rightarrow> alloc (EvalConst eid v) s)"

subsection \<open>Qualified identifiers\<close>

text \<open>
  The loop of \<open>getQualifiedID\<close>: it walks down the operands, prefixing field names,
  until an identifier (valid) or any other kind (not valid). A nil operand is
  dereferenced by the type switch.
\<close>

fun getQualifiedID_loop :: "string \<Rightarrow> expr \<Rightarrow> fault + (string \<times> bool)" where
  "getQualifiedID_loop ident (IdentExpr _ n) = Inr (n @ ''.'' @ ident, True)"
| "getQualifiedID_loop ident (SelectExpr _ operand field _) =
     getQualifiedID_loop (field @ ''.'' @ ident) operand"
| "getQualifiedID_loop ident NilExpr = Inl (Panic NilDereference)"
| "getQualifiedID_loop ident _ = Inr (ident, False)"

definition getQualifiedID :: "string \<Rightarrow> expr \<Rightarrow> fault + (string \<times> bool)" where
  "getQualifiedID field operand = getQualifiedID_loop field operand"

subsection \<open>Calls\<close>

text \<open>Reading \<open>args[i]\<close>: an index beyond the slice panics.\<close>

definition arg_at :: "addr list \<Rightarrow> nat \<Rightarrow> fault + addr" where
  "arg_at args i = (if i < length args then Inr (args ! i) else Inl (Panic IndexOutOfRange))"

text \<open>
  The specialised operator planners read their arguments at fixed positions, in the
  order of the struct literal, with no check of the length.
\<close>

definition planCallEqual :: "id \<Rightarrow> addr list \<Rightarrow> pstate \<Rightarrow> addr result" where
  "planCallEqual eid args s =
     (case arg_at args 0 of
        Inl f \<Rightarrow> (Inl f, s)
      | Inr lhs \<Rightarrow>
          (case arg_at args 1 of
             Inl f \<Rightarrow> (Inl f, s)
           | Inr rhs \<Rightarrow> alloc (EvalEq eid lhs rhs) s))"

definition planCallNotEqual :: "id \<Rightarrow> addr list \<Rightarrow> pstate \<Rightarrow> addr result" where
  "planCallNotEqual eid args s =
     (case arg_at args 0 of
        Inl f \<Rightarrow> (Inl f, s)
      | Inr lhs \<Rightarrow>
          (case arg_at args 1 of
             Inl f \<Rightarrow> (Inl f, s)
           | Inr rhs \<Rightarrow> alloc (EvalNe eid lhs rhs) s))"

definition planCallLogicalAnd :: "id \<Rightarrow> addr list \<Rightarrow> pstate \<Rightarrow> addr result" where
  "planCallLogicalAnd eid args s =
     (case arg_at args 0 of
        Inl f \<Rightarrow> (Inl f, s)
      | Inr lhs \<Rightarrow>
          (case arg_at args 1 of
             Inl f \<Rightarrow> (Inl f, s)
           | Inr rhs \<Rightarrow> alloc (EvalAnd eid lhs rhs) s))"

definition planCallLogicalOr :: "id \<Rightarrow> addr list \<Rightarrow> pstate \<Rightarrow> addr result" where
  "planCallLogicalOr eid args s =
     (case arg_at args 0 of
        Inl f \<Rightarrow> (Inl f, s)
      | Inr lhs \<Rightarrow>
          (case arg_at args 1 of
             Inl f \<Rightarrow> (Inl f, s)
           | Inr rhs \<Rightarrow> alloc (EvalOr eid lhs rhs) s))"

definition planCallConditional :: "id \<Rightarrow> addr list \<Rightarrow> pstate \<Rightarrow> addr result" where
  "planCallConditional eid args s =
     (case arg_at args 0 of
        Inl f \<Rightarrow> (Inl f, s)
      | Inr c \<Rightarrow>
          (case arg_at args 1 of
             Inl f \<Rightarrow> (Inl f, s)
           | Inr truthy \<Rightarrow>
               (case arg_at args 2 of
                  Inl f \<Rightarrow> (Inl f, s)
                | Inr falsy \<Rightarrow> alloc (EvalConditional eid c truthy falsy) s)))"

text \<open>The planners by argument count. \<open>impl\<close> is the overload found, \<open>None\<close> for nil.\<close>

definition planCallZero ::
  "id \<Rightarrow> string \<Rightarrow> string \<Rightarrow> overload option \<Rightarrow> pstate \<Rightarrow> addr result" where
  "planCallZero eid function ovl impl s =
     (case impl of
        None \<Rightarrow> (Inl (Error (NoSuchOverload (function @ ''()''))), s)
      | Some i \<Rightarrow>
          (case Function i of
             None \<Rightarrow> (Inl (Error (NoSuchOverload (function @ ''()''))), s)
           | Some f \<Rightarrow> alloc (EvalZeroArity eid f) s))"

definition planCallUnary ::
  "id \<Rightarrow> string \<Rightarrow> string \<Rightarrow> overload option \<Rightarrow> addr list \<Rightarrow> pstate \<Rightarrow> addr result" where
  "planCallUnary eid function ovl impl args s =
     (case (case impl of
              None \<Rightarrow> Inr (None, 0)
            | Some i \<Rightarrow>
                (case Unary i of
                   None \<Rightarrow> Inl (NoSuchOverload (function @ ''(arg)''))
                 | Some f \<Rightarrow> Inr (Some f, OperandTrait i))) of
        Inl err \<Rightarrow> (Inl (Error err), s)
      | Inr (fn, trait) \<Rightarrow>
          (case arg_at args 0 of
             Inl f \<Rightarrow> (Inl f, s)
           | Inr arg \<Rightarrow> alloc (EvalUnary eid function ovl arg trait fn) s))"

definition planCallBinary ::
  "id \<Rightarrow> string \<Rightarrow> string \<Rightarrow> overload option \<Rightarrow> addr list \<Rightarrow> pstate \<Rightarrow> addr result" where
  "planCallBinary eid function ovl impl args s =
     (case (case impl of
              None \<Rightarrow> Inr (None, 0)
            | Some i \<Rightarrow>
                (case Binary i of
                   None \<Rightarrow> Inl (NoSuchOverload (function @ ''(lhs, rhs)''))
                 | Some f \<Rightarrow> Inr (Some f, OperandTrait i))) of
        Inl err \<Rightarrow> (Inl (Error err), s)
      | Inr (fn, trait) \<Rightarrow>
          (case arg_at args 0 of
             Inl f \<Rightarrow> (Inl f, s)
           | Inr lhs \<Rightarrow>
               (case arg_at args 1 of
                  Inl f \<Rightarrow> (Inl f, s)
                | Inr rhs \<Rightarrow> alloc (EvalBinary eid function ovl lhs rhs trait fn) s)))"

definition planCallVarArgs ::
  "id \<Rightarrow> string \<Rightarrow> string \<Rightarrow> overload option \<Rightarrow> addr list \<Rightarrow> pstate \<Rightarrow> addr result" where
  "planCallVarArgs eid function ovl impl args s =
     (case (case impl of
              None \<Rightarrow> Inr (None, 0)
            | Some i \<Rightarrow>
                (case Function i of
                   None \<Rightarrow> Inl (NoSuchOverload (function @ ''(...)''))
                 | Some f \<Rightarrow> Inr (Some f, OperandTrait i))) of
        Inl err \<Rightarrow> (Inl (Error err), s)
      | Inr (fn, trait) \<Rightarrow> alloc (EvalVarArgs eid function ovl args trait fn) s)"

text \<open>
  \<open>oName\<close> in \<open>planCall\<close>: the overload id of the call's reference when it lists
  exactly one, the empty string otherwise.
\<close>

definition overloadName :: "planner \<Rightarrow> id \<Rightarrow> string" where
  "overloadName p eid =
     (case refMap p eid of
        None \<Rightarrow> []
      | Some oRef \<Rightarrow>
          (if length (ref_OverloadId oRef) = 1 then ref_OverloadId oRef ! 0 else []))"

text \<open>
  \<open>fnDef\<close> in \<open>planCall\<close>: looked up by overload id when there is one, then by
  function name when that found nothing.
\<close>

definition findFnDef :: "planner \<Rightarrow> string \<Rightarrow> string \<Rightarrow> pstate \<Rightarrow> overload option \<times> pstate" where
  "findFnDef p fnName oName s =
     (let (fnDef, s1) =
            (if oName \<noteq> [] then (disp_FindOverload p oName, record_call (FindOverload oName) s)
             else (None, s))
      in if fnDef = None then (disp_FindOverload p fnName, record_call (FindOverload fnName) s1)
         else (fnDef, s1))"

text \<open>
  The second half of \<open>planCall\<close>, from the point where the slice \<open>args\<close> is
  filled with the planned target, if any, and the planned arguments: the switch on the
  function name, then the lookup and the switch on the argument count.
\<close>

definition planCallDispatch :: "planner \<Rightarrow> id \<Rightarrow> string \<Rightarrow> addr list \<Rightarrow> pstate \<Rightarrow> addr result" where
  "planCallDispatch p eid fnName args s =
     (let oName = overloadName p eid in
      if fnName = LogicalAnd then planCallLogicalAnd eid args s
      else if fnName = LogicalOr then planCallLogicalOr eid args s
      else if fnName = Conditional then planCallConditional eid args s
      else if fnName = Equals then planCallEqual eid args s
      else if fnName = NotEquals then planCallNotEqual eid args s
      else
        (let (fnDef, s1) = findFnDef p fnName oName s;
             argCount = length args
         in if argCount = 0 then planCallZero eid fnName oName fnDef s1
            else if argCount = 1 then planCallUnary eid fnName oName fnDef args s1
            else if argCount = 2 then planCallBinary eid fnName oName fnDef args s1
            else planCallVarArgs eid fnName oName fnDef args s1))"

subsection \<open>Object types\<close>

text \<open>
  The loop of \<open>planCreateObj\<close> over \<open>p.pkg.ResolveCandidateNames(typeName)\<close>: the
  first candidate that \<open>p.provider.FindType\<close> finds, if any.
\<close>

fun findTypeName :: "planner \<Rightarrow> string list \<Rightarrow> pstate \<Rightarrow> string option \<times> pstate" where
  "findTypeName p [] s = (None, s)"
| "findTypeName p (qualifiedTypeName # rest) s =
     (let s1 = record_call (FindType qualifiedTypeName) s in
      if provider_FindType p qualifiedTypeName then (Some qualifiedTypeName, s1)
      else findTypeName p rest s1)"

text \<open>The getters of a struct entry; a getter of a oneof gives the zero value for another kind.\<close>

fun GetFieldKey :: "entry \<Rightarrow> string" where
  "GetFieldKey (Entry (FieldKey k) _) = k"
| "GetFieldKey (Entry _ _) = []"

fun GetMapKey :: "entry \<Rightarrow> expr" where
  "GetMapKey (Entry (MapKey k) _) = k"
| "GetMapKey (Entry _ _) = NilExpr"

fun GetValue :: "entry \<Rightarrow> expr" where
  "GetValue (Entry _ v) = v"

subsection \<open>A fresh planner\<close>

text \<open>
  \<open>newPlanner\<close> and \<open>newUncheckedPlanner\<close> start with an empty \<open>identMap\<close>; nothing
  is allocated and no collaborator has been called.
\<close>

definition newState :: pstate where
  "newState = \<lparr>identMap = Map.empty, heap = [], calls = []\<rparr>"

subsection \<open>Notions used to state the properties\<close>

text \<open>
  A later state grows from an earlier one: every cached identifier keeps its node,
  the store and the record of calls are extended at the end.
\<close>

definition grows :: "pstate \<Rightarrow> pstate \<Rightarrow> bool" where
  "grows s s' \<longleftrightarrow>
     identMap s \<subseteq>\<^sub>m identMap s' \<and> prefix (heap s) (heap s') \<and> prefix (calls s) (calls s')"

text \<open>
  The node dedicated to each of the five operators, and the number of arguments it
  reads.
\<close>

definition operatorArity :: "string \<Rightarrow> nat" where
  "operatorArity fn = (if fn = Conditional then 3 else 2)"

definition operatorNode :: "string \<Rightarrow> id \<Rightarrow> addr list \<Rightarrow> node" where
  "operatorNode fn eid args =
     (if fn = LogicalAnd then EvalAnd eid (args ! 0) (args ! 1)
      else if fn = LogicalOr then EvalOr eid (args ! 0) (args ! 1)
      else if fn = Conditional then EvalConditional eid (args ! 0) (args ! 1) (args ! 2)
      else if fn = Equals then EvalEq eid (args ! 0) (args ! 1)
      else EvalNe eid (args ! 0) (args ! 1))"

subsection \<open>Example planners\<close>

text \<open>A decorator that wraps its argument in a new node, as an evaluation observer does.\<close>

definition watchDec :: decorator where
  "watchDec i h = Inr ([EvalOther ''watch'' [i]], length h)"

text \<open>
  A dispatcher with three entries: one registered under the name of logical AND, a
  function \<open>size\<close> with a unary form only, and a function \<open>now\<close> with a zero-arity
  (variadic) form only.
\<close>

definition exampleDisp :: "string \<Rightarrow> overload option" where
  "exampleDisp n =
     (if n = ''_&&_'' then
        Some \<lparr>Operator = ''_&&_'', OperandTrait = 0, Unary = None, Binary = Some 7, Function = None\<rparr>
      else if n = ''size'' then
        Some \<lparr>Operator = ''size'', OperandTrait = 4, Unary = Some 8, Binary = None, Function = None\<rparr>
      else if n = ''now'' then
        Some \<lparr>Operator = ''now'', OperandTrait = 0, Unary = None, Binary = None, Function = Some 9\<rparr>
      else None)"

text \<open>
  References of a checked expression: node 10 is the qualified name \<open>pkg.x\<close>, node 11
  the enum constant \<open>pkg.E.A\<close> with the value 1, node 12 again \<open>pkg.x\<close>.
\<close>

definition exampleRefs :: "id \<rightharpoonup> reference" where
  "exampleRefs =
     [10 \<mapsto> \<lparr>ref_Name = ''pkg.x'', ref_OverloadId = [], ref_Value = None\<rparr>,
      11 \<mapsto> \<lparr>ref_Name = ''pkg.E.A'', ref_OverloadId = [], ref_Value = Some (Int64Value 1)\<rparr>,
      12 \<mapsto> \<lparr>ref_Name = ''pkg.x'', ref_OverloadId = [], ref_Value = None\<rparr>]"

text \<open>
  A planner in package \<open>pkg\<close>, whose provider knows the type \<open>pkg.Msg\<close> only, without
  decorators; and the same planner with the wrapping decorator.
\<close>

definition examplePlanner :: planner where
  "examplePlanner =
     \<lparr>disp_FindOverload = exampleDisp,
      provider_FindType = (\<lambda>n. n = ''pkg.Msg''),
      pkg_Package = ''pkg'',
      pkg_ResolveCandidateNames = (\<lambda>n. [''pkg.'' @ n, n]),
      refMap = exampleRefs,
      decorators = []\<rparr>"

definition watchingPlanner :: planner where
  "watchingPlanner = examplePlanner\<lparr>decorators := [watchDec]\<rparr>"

subsection \<open>Plan\<close>

text \<open>
  \<open>Plan\<close> and the planners that call it back. \<open>planCallArgs\<close> is the first half
  of \<open>planCall\<close>, which fills the slice \<open>args\<close> with the planned target, if there
  is one, and the planned arguments. \<open>planExprs\<close> is the loop
  \<open>for _, e := range es\<close> that plans each expression in order and returns at the first
  failure (the arguments of a call, the elements of a list); \<open>planMapEntries\<close> and
  \<open>planObjEntries\<close> are the loops over the entries of a struct. Each planner takes the
  fields of its node: \<open>expr.Id\<close> first, then the fields of the kind.
\<close>

function (sequential) Plan :: "planner \<Rightarrow> expr \<Rightarrow> pstate \<Rightarrow> addr result"
and planSelect :: "planner \<Rightarrow> id \<Rightarrow> expr \<Rightarrow> string \<Rightarrow> bool \<Rightarrow> pstate \<Rightarrow> addr result"
and planCall :: "planner \<Rightarrow> id \<Rightarrow> expr \<Rightarrow> string \<Rightarrow> expr list \<Rightarrow> pstate \<Rightarrow> addr result"
and planCallArgs :: "planner \<Rightarrow> expr \<Rightarrow> expr list \<Rightarrow> pstate \<Rightarrow> addr list result"
and planExprs :: "planner \<Rightarrow> expr list \<Rightarrow> pstate \<Rightarrow> addr list result"
and planCreateList :: "planner \<Rightarrow> id \<Rightarrow> expr list \<Rightarrow> pstate \<Rightarrow> addr result"
and planCreateStruct :: "planner \<Rightarrow> id \<Rightarrow> string \<Rightarrow> entry list \<Rightarrow> pstate \<Rightarrow> addr result"
and planMapEntries :: "planner \<Rightarrow> entry list \<Rightarrow> pstate \<Rightarrow> (addr list \<times> addr list) result"
and planCreateObj :: "planner \<Rightarrow> id \<Rightarrow> string \<Rightarrow> entry list \<Rightarrow> pstate \<Rightarrow> addr result"
and planObjEntries :: "planner \<Rightarrow> entry list \<Rightarrow> pstate \<Rightarrow> addr list result"
and planComprehension ::
  "planner \<Rightarrow> id \<Rightarrow> string \<Rightarrow> expr \<Rightarrow> string \<Rightarrow> expr \<Rightarrow> expr \<Rightarrow> expr \<Rightarrow> expr \<Rightarrow> pstate \<Rightarrow> addr result"
where
  "Plan p NilExpr s = (Inl (Panic NilDereference), s)"
| "Plan p (CallExpr eid target function args) s =
     decorate p (planCall p eid target function args s)"
| "Plan p (IdentExpr eid name) s = decorate p (planIdent p eid name s)"
| "Plan p (SelectExpr eid operand field testOnly) s =
     decorate p (planSelect p eid operand field testOnly s)"
| "Plan p (ListExpr eid elements) s = decorate p (planCreateList p eid elements s)"
| "Plan p (StructExpr eid messageName entries) s =
     decorate p (planCreateStruct p eid messageName entries s)"
| "Plan p (ComprehensionExpr eid iterVar iterRange accuVar accuInit loopCondition loopStep res) s =
     decorate p (planComprehension p eid iterVar iterRange accuVar accuInit loopCondition loopStep res s)"
| "Plan p (ConstExpr eid c) s = decorate p (planConst p eid c s)"
| "Plan p (UnsetExpr eid) s = (Inl (Error (UnsupportedExpr (UnsetExpr eid))), s)"

| "planSelect p eid operand field testOnly s =
     (if testOnly then
        (case Plan p operand s of
           (Inl f, s1) \<Rightarrow> (Inl f, s1)
         | (Inr op, s1) \<Rightarrow> alloc (EvalTestOnly eid field op) s1)
      else
        (case refMap p eid of
           Some idRef \<Rightarrow>
             (let idName = ref_Name idRef in
              case ref_Value idRef of
                Some v \<Rightarrow> Plan p (ConstExpr eid v) s
              | None \<Rightarrow>
                  (case identMap s idName of
                     Some i \<Rightarrow> (Inr i, s)
                   | None \<Rightarrow>
                       (let i = length (heap s)
                        in (Inr i, s\<lparr>identMap := (identMap s)(idName \<mapsto> i),
                                     heap := heap s @ [EvalIdent eid idName None]\<rparr>))))
         | None \<Rightarrow>
             (case Plan p operand s of
                (Inl f, s1) \<Rightarrow> (Inl f, s1)
              | (Inr op, s1) \<Rightarrow>
                  (case getQualifiedID field operand of
                     Inl f \<Rightarrow> (Inl f, s1)
                   | Inr (qualID, isID) \<Rightarrow>
                       alloc (EvalSelect eid field op (if isID then Some qualID else None)) s1))))"

| "planCall p eid target function args s =
     (case planCallArgs p target args s of
        (Inl f, s1) \<Rightarrow> (Inl f, s1)
      | (Inr planned, s1) \<Rightarrow> planCallDispatch p eid function planned s1)"

| "planCallArgs p target args s =
     (case (if target \<noteq> NilExpr then
              (case Plan p target s of
                 (Inl f, s1) \<Rightarrow> (Inl f, s1)
               | (Inr arg, s1) \<Rightarrow> (Inr [arg], s1))
            else (Inr [], s)) of
        (Inl f, s1) \<Rightarrow> (Inl f, s1)
      | (Inr targ, s1) \<Rightarrow>
          (case planExprs p args s1 of
             (Inl f, s2) \<Rightarrow> (Inl f, s2)
           | (Inr rest, s2) \<Rightarrow> (Inr (targ @ rest), s2)))"

| "planExprs p [] s = (Inr [], s)"
| "planExprs p (e # es) s =
     (case Plan p e s of
        (Inl f, s1) \<Rightarrow> (Inl f, s1)
      | (Inr a, s1) \<Rightarrow>
          (case planExprs p es s1 of
             (Inl f, s2) \<Rightarrow> (Inl f, s2)
           | (Inr as, s2) \<Rightarrow> (Inr (a # as), s2)))"

| "planCreateList p eid elements s =
     (case planExprs p elements s of
        (Inl f, s1) \<Rightarrow> (Inl f, s1)
      | (Inr elems, s1) \<Rightarrow> alloc (EvalList eid elems) s1)"

| "planCreateStruct p eid messageName entries s =
     (if length messageName \<noteq> 0 then planCreateObj p eid messageName entries s
      else
        (case planMapEntries p entries s of
           (Inl f, s1) \<Rightarrow> (Inl f, s1)
         | (Inr (keys, vals), s1) \<Rightarrow> alloc (EvalMap eid keys vals) s1))"

| "planMapEntries p [] s = (Inr ([], []), s)"
| "planMapEntries p (en # ens) s =
     (case Plan p (GetMapKey en) s of
        (Inl f, s1) \<Rightarrow> (Inl f, s1)
      | (Inr keyVal, s1) \<Rightarrow>
          (case Plan p (GetValue en) s1 of
             (Inl f, s2) \<Rightarrow> (Inl f, s2)
           | (Inr valVal, s2) \<Rightarrow>
               (case planMapEntries p ens s2 of
                  (Inl f, s3) \<Rightarrow> (Inl f, s3)
                | (Inr (keys, vals), s3) \<Rightarrow> (Inr (keyVal # keys, valVal # vals), s3))))"

| "planCreateObj p eid messageName entries s =
     (case findTypeName p (pkg_ResolveCandidateNames p messageName) s of
        (None, s1) \<Rightarrow> (Inl (Error (UnknownType messageName)), s1)
      | (Some typeName, s1) \<Rightarrow>
          (case planObjEntries p entries s1 of
             (Inl f, s2) \<Rightarrow> (Inl f, s2)
           | (Inr vals, s2) \<Rightarrow>
               alloc (EvalObj eid typeName (map GetFieldKey entries) vals) s2))"

| "planObjEntries p [] s = (Inr [], s)"
| "planObjEntries p (en # ens) s =
     (case Plan p (GetValue en) s of
        (Inl f, s1) \<Rightarrow> (Inl f, s1)
      | (Inr v, s1) \<Rightarrow>
          (case planObjEntries p ens s1 of
             (Inl f, s2) \<Rightarrow> (Inl f, s2)
           | (Inr vals, s2) \<Rightarrow> (Inr (v # vals), s2)))"

| "planComprehension p eid iterVar iterRange accuVar accuInit loopCondition loopStep res s =
     (case Plan p accuInit s of
        (Inl f, s1) \<Rightarrow> (Inl f, s1)
      | (Inr accu, s1) \<Rightarrow>
     (case Plan p iterRange s1 of
        (Inl f, s2) \<Rightarrow> (Inl f, s2)
      | (Inr iterRange', s2) \<Rightarrow>
     (case Plan p loopCondition s2 of
        (Inl f, s3) \<Rightarrow> (Inl f, s3)
      | (Inr cond, s3) \<Rightarrow>
     (case Plan p loopStep s3 of
        (Inl f, s4) \<Rightarrow> (Inl f, s4)
      | (Inr step, s4) \<Rightarrow>
     (case Plan p res s4 of
        (Inl f, s5) \<Rightarrow> (Inl f, s5)
      | (Inr result, s5) \<Rightarrow>
          alloc (EvalFold eid accuVar accu iterVar iterRange' cond step result) s5)))))"
  by pat_completeness auto

text \<open>
  Every call goes to a smaller expression: \<open>Plan\<close> on a fresh \<open>ConstExpr\<close> in
  \<open>planSelect\<close> as well, a constant having no sub-expression.
\<close>

termination
  apply (relation "measure (\<lambda>x. case x of
    Inl (Inl (Inl (p, e, s))) \<Rightarrow> 4 * size e
  | Inl (Inl (Inr (p, eid, operand, field, testOnly, s))) \<Rightarrow> 4 * size operand + 1
  | Inl (Inr (Inl (p, eid, target, function, args, s))) \<Rightarrow>
      4 * (size target + size_list size args) + 3
  | Inl (Inr (Inr (Inl (p, target, args, s)))) \<Rightarrow> 4 * (size target + size_list size args) + 2
  | Inl (Inr (Inr (Inr (p, es, s)))) \<Rightarrow> 4 * size_list size es
  | Inr (Inl (Inl (p, eid, elements, s))) \<Rightarrow> 4 * size_list size elements + 1
  | Inr (Inl (Inr (Inl (p, eid, messageName, entries, s)))) \<Rightarrow> 4 * size_list size entries + 3
  | Inr (Inl (Inr (Inr (p, entries, s)))) \<Rightarrow> 4 * size_list size entries + 1
  | Inr (Inr (Inl (p, eid, messageName, entries, s))) \<Rightarrow> 4 * size_list size entries + 2
  | Inr (Inr (Inr (Inl (p, entries, s)))) \<Rightarrow> 4 * size_list size entries + 1
  | Inr (Inr (Inr (Inr (p, eid, iterVar, iterRange, accuVar, accuInit, loopCondition,
                        loopStep, res, s)))) \<Rightarrow>
      4 * (size iterRange + size accuInit + size loopCondition + size loopStep + size res) + 1)")
  apply simp_all
  subgoal for en by (cases en rule: GetMapKey.cases) simp_all
  subgoal for p en by (cases en) simp
  subgoal for en by (cases en) simp
  done

section \<open>Properties\<close>

subsection \<open>Planning only extends the state\<close>

lemma grows_refl [simp]: "grows s s"
  by (simp add: grows_def)

lemma grows_trans: "grows s1 s2 \<Longrightarrow> grows s2 s3 \<Longrightarrow> grows s1 s3"
  unfolding grows_def by (meson map_le_trans prefix_order.trans)

lemma grows_alloc: "grows s (snd (alloc n s))"
  by (simp add: grows_def alloc_def)

lemma grows_record_call: "grows s (record_call ev s)"
  by (simp add: grows_def record_call_def)

lemma grows_heap_append: "grows s (s\<lparr>heap := heap s @ ns\<rparr>)"
  by (simp add: grows_def)

lemma grows_decorate_loop: "grows s (snd (decorate_loop ds k i s))"
proof (induction ds arbitrary: k i s)
  case Nil
  then show ?case by simp
next
  case (Cons d ds)
  show ?case
  proof (cases "d i (heap (record_call (Decorate k i) s))")
    case (Inl e)
    then show ?thesis by (simp add: grows_record_call)
  next
    case (Inr r)
    obtain new j where r: "r = (new, j)" by (cases r)
    let ?s1 = "record_call (Decorate k i) s"
    have "grows s ?s1" by (rule grows_record_call)
    moreover have "grows ?s1 (?s1\<lparr>heap := heap ?s1 @ new\<rparr>)" by (rule grows_heap_append)
    moreover have "grows (?s1\<lparr>heap := heap ?s1 @ new\<rparr>)
        (snd (decorate_loop ds (Suc k) j (?s1\<lparr>heap := heap ?s1 @ new\<rparr>)))"
      by (rule Cons.IH)
    ultimately show ?thesis using Inr r by (auto simp: Let_def intro: grows_trans)
  qed
qed

lemma grows_decorate: "grows s (snd r) \<Longrightarrow> grows s (snd (decorate p r))"
  by (cases r; cases "fst r")
     (auto simp: decorate_def intro: grows_trans grows_decorate_loop)

lemma grows_planIdent: "grows s (snd (planIdent p eid n s))"
  by (auto simp: planIdent_def grows_def Let_def map_le_def split: option.splits)

lemma grows_planConst: "grows s (snd (planConst p eid c s))"
  by (auto simp: planConst_def grows_alloc split: sum.splits)

lemma grows_findFnDef: "grows s (snd (findFnDef p fn on s))"
  by (auto simp: findFnDef_def Let_def grows_def record_call_def split: prod.splits if_splits)

lemma grows_operator:
  "grows s (snd (planCallEqual eid args s))"
  "grows s (snd (planCallNotEqual eid args s))"
  "grows s (snd (planCallLogicalAnd eid args s))"
  "grows s (snd (planCallLogicalOr eid args s))"
  "grows s (snd (planCallConditional eid args s))"
  by (auto simp: planCallEqual_def planCallNotEqual_def planCallLogicalAnd_def
      planCallLogicalOr_def planCallConditional_def grows_alloc split: sum.splits)

lemma grows_generic:
  "grows s (snd (planCallZero eid fn on impl s))"
  "grows s (snd (planCallUnary eid fn on impl args s))"
  "grows s (snd (planCallBinary eid fn on impl args s))"
  "grows s (snd (planCallVarArgs eid fn on impl args s))"
  by (auto simp: planCallZero_def planCallUnary_def planCallBinary_def planCallVarArgs_def
      grows_alloc split: sum.splits option.splits)

lemma grows_planCallDispatch: "grows s (snd (planCallDispatch p eid fn args s))"
proof -
  obtain fnDef s1 where f: "findFnDef p fn (overloadName p eid) s = (fnDef, s1)"
    by (cases "findFnDef p fn (overloadName p eid) s")
  then have "grows s s1" using grows_findFnDef [of s p fn "overloadName p eid"] by simp
  then show ?thesis
    unfolding planCallDispatch_def Let_def f
    by (auto intro: grows_operator grows_trans [OF _ grows_generic(1)]
        grows_trans [OF _ grows_generic(2)] grows_trans [OF _ grows_generic(3)]
        grows_trans [OF _ grows_generic(4)])
qed

lemma grows_findTypeName: "grows s (snd (findTypeName p cs s))"
proof (induction cs arbitrary: s)
  case Nil
  then show ?case by simp
next
  case (Cons c cs)
  then show ?case
    by (auto simp: Let_def grows_record_call intro: grows_trans [OF grows_record_call])
qed

lemma grows_bind:
  assumes "grows s (snd r)"
    and "\<And>a s1. r = (Inr a, s1) \<Longrightarrow> grows s1 (snd (k a s1))"
  shows "grows s (snd (case r of (Inl f, s1) \<Rightarrow> (Inl f, s1) | (Inr a, s1) \<Rightarrow> k a s1))"
proof (cases r)
  case (Pair x s1)
  show ?thesis
  proof (cases x)
    case (Inl f)
    with Pair assms(1) show ?thesis by simp
  next
    case (Inr a)
    with Pair assms(1) assms(2) [of a s1] show ?thesis by (auto intro: grows_trans)
  qed
qed

lemma grows_Plan:
  "grows s (snd (Plan p e s))"
  "grows s (snd (planSelect p eid operand field testOnly s))"
  "grows s (snd (planCall p eid target fn args s))"
  "grows s (snd (planCallArgs p target args s))"
  "grows s (snd (planExprs p es s))"
  "grows s (snd (planCreateList p eid elements s))"
  "grows s (snd (planCreateStruct p eid messageName entries s))"
  "grows s (snd (planMapEntries p entries s))"
  "grows s (snd (planCreateObj p eid messageName entries s))"
  "grows s (snd (planObjEntries p entries s))"
  "grows s (snd (planComprehension p eid iterVar iterRange accuVar accuInit loopCondition loopStep res s))"
proof (induction p e s and p eid operand field testOnly s and p eid target fn args s
    and p target args s and p es s and p eid elements s and p eid messageName entries s
    and p entries s and p eid messageName entries s and p entries s
    and p eid iterVar iterRange accuVar accuInit loopCondition loopStep res s
    rule: Plan_planSelect_planCall_planCallArgs_planExprs_planCreateList_planCreateStruct_planMapEntries_planCreateObj_planObjEntries_planComprehension.induct)
  case (1 p s)
  then show ?case by simp
next
  case (2 p eid target fn args s)
  then show ?case by (simp add: grows_decorate del: planCall.simps)
next
  case (3 p eid name s)
  then show ?case by (simp add: grows_decorate grows_planIdent)
next
  case (4 p eid operand field testOnly s)
  then show ?case by (simp add: grows_decorate del: planSelect.simps)
next
  case (5 p eid elements s)
  then show ?case by (simp add: grows_decorate del: planCreateList.simps)
next
  case (6 p eid messageName entries s)
  then show ?case by (simp add: grows_decorate del: planCreateStruct.simps)
next
  case (7 p eid iterVar iterRange accuVar accuInit loopCondition loopStep res s)
  then show ?case by (simp add: grows_decorate del: planComprehension.simps)
next
  case (8 p eid c s)
  then show ?case by (simp add: grows_decorate grows_planConst)
next
  case (9 p eid s)
  then show ?case by simp
next
  case (10 p eid operand field testOnly s)
  show ?case
  proof (cases testOnly)
    case True
    with 10(1) have "grows s (snd (Plan p operand s))" by simp
    with True show ?thesis
      by (auto split: prod.splits sum.splits intro: grows_trans [OF _ grows_alloc]
          simp del: Plan.simps)
  next
    case False
    show ?thesis
    proof (cases "refMap p eid")
      case None
      with False 10(2) have "grows s (snd (Plan p operand s))" by simp
      with False None show ?thesis
        by (auto split: prod.splits sum.splits intro: grows_trans [OF _ grows_alloc]
            simp del: Plan.simps)
    next
      case (Some idRef)
      note ref = this
      show ?thesis
      proof (cases "ref_Value idRef")
        case None
        with False ref show ?thesis
          by (auto simp: Let_def grows_def map_le_def split: option.splits)
      next
        case (Some v)
        with False ref 10(3) have "grows s (snd (Plan p (ConstExpr eid v) s))" by simp
        with False ref Some show ?thesis by (simp del: Plan.simps)
      qed
    qed
  qed
next
  case (11 p eid target fn args s)
  then show ?case
    by (auto split: prod.splits sum.splits
        intro: grows_trans [OF _ grows_planCallDispatch])
next
  case (12 p target args s)
  then show ?case
    by (auto split: prod.splits sum.splits if_splits intro: grows_trans simp del: Plan.simps)
next
  case (13 p s)
  then show ?case by simp
next
  case (14 p e es s)
  then show ?case
    by (auto split: prod.splits sum.splits intro: grows_trans simp del: Plan.simps)
next
  case (15 p eid elements s)
  then show ?case
    by (auto split: prod.splits sum.splits intro: grows_trans [OF _ grows_alloc])
next
  case (16 p eid messageName entries s)
  then show ?case
    by (auto split: prod.splits sum.splits intro: grows_trans [OF _ grows_alloc]
        simp del: planCreateObj.simps)
next
  case (17 p s)
  then show ?case by simp
next
  case (18 p en ens s)
  show ?case
    apply (simp only: planMapEntries.simps)
    apply (rule grows_bind, rule 18(1))
    apply (rule grows_bind, rule 18(2) [OF sym], assumption, rule refl)
    apply (rule grows_bind, rule 18(3) [OF sym _ sym], assumption, rule refl, assumption, rule refl)
    apply (simp split: prod.splits)
    done
next
  case (19 p eid messageName entries s)
  then show ?case
    using grows_findTypeName [of s p "pkg_ResolveCandidateNames p messageName"]
    by (auto split: prod.splits sum.splits option.splits intro: grows_trans)
       (meson grows_trans grows_alloc)
next
  case (20 p s)
  then show ?case by simp
next
  case (21 p en ens s)
  show ?case
    apply (simp only: planObjEntries.simps)
    apply (rule grows_bind, rule 21(1))
    apply (rule grows_bind, rule 21(2) [OF sym], assumption, rule refl)
    apply simp
    done
next
  case (22 p eid iterVar iterRange accuVar accuInit loopCondition loopStep res s)
  show ?case
    apply (simp only: planComprehension.simps)
    apply (rule grows_bind, rule 22(1))
    apply (rule grows_bind, rule 22(2) [OF sym], assumption, rule refl)
    apply (rule grows_bind, rule 22(3) [OF sym _ sym], assumption, rule refl, assumption, rule refl)
    apply (rule grows_bind, rule 22(4) [OF sym _ sym _ sym], assumption, rule refl, assumption,
        rule refl, assumption, rule refl)
    apply (rule grows_bind, rule 22(5) [OF sym _ sym _ sym _ sym], assumption, rule refl,
        assumption, rule refl, assumption, rule refl, assumption, rule refl)
    apply (rule grows_alloc)
    done
qed

subsection \<open>Calls\<close>

lemma operator_names_distinct:
  "LogicalAnd \<noteq> LogicalOr" "LogicalAnd \<noteq> Conditional" "LogicalAnd \<noteq> Equals"
  "LogicalAnd \<noteq> NotEquals" "LogicalOr \<noteq> Conditional" "LogicalOr \<noteq> Equals"
  "LogicalOr \<noteq> NotEquals" "Conditional \<noteq> Equals" "Conditional \<noteq> NotEquals"
  "Equals \<noteq> NotEquals"
  by (simp_all add: LogicalAnd_def LogicalOr_def Conditional_def Equals_def NotEquals_def)

lemma planCallDispatch_operator:
  assumes "fn \<in> {LogicalAnd, LogicalOr, Conditional, Equals, NotEquals}"
  shows "planCallDispatch p eid fn args s =
     (if length args < operatorArity fn then (Inl (Panic IndexOutOfRange), s)
      else alloc (operatorNode fn eid args) s)"
  using assms operator_names_distinct operator_names_distinct [symmetric]
  by (auto simp: planCallDispatch_def operatorArity_def operatorNode_def arg_at_def
      planCallLogicalAnd_def planCallLogicalOr_def planCallConditional_def
      planCallEqual_def planCallNotEqual_def)

lemma decorate_loop_no_panic: "fst (decorate_loop ds k i s) \<noteq> Inl (Panic pn)"
  by (induction ds arbitrary: k i s) (auto simp: Let_def split: sum.splits prod.splits)

lemma planExprs_length:
  "planExprs p es s = (Inr planned, s1) \<Longrightarrow> length planned = length es"
  by (induction es arbitrary: s planned)
     (auto split: prod.splits sum.splits simp del: Plan.simps)

lemma planCallArgs_length:
  "planCallArgs p target args s = (Inr planned, s1) \<Longrightarrow>
   length planned = length args + (if target = NilExpr then 0 else 1)"
  by (auto split: prod.splits sum.splits if_splits dest: planExprs_length simp del: Plan.simps)

lemma operator_planners_unchecked_arity:
  "(planCallLogicalAnd eid args s = (Inl (Panic IndexOutOfRange), s) \<longleftrightarrow> length args < 2)
   \<and> (planCallLogicalOr eid args s = (Inl (Panic IndexOutOfRange), s) \<longleftrightarrow> length args < 2)
   \<and> (planCallEqual eid args s = (Inl (Panic IndexOutOfRange), s) \<longleftrightarrow> length args < 2)
   \<and> (planCallNotEqual eid args s = (Inl (Panic IndexOutOfRange), s) \<longleftrightarrow> length args < 2)
   \<and> (planCallConditional eid args s = (Inl (Panic IndexOutOfRange), s) \<longleftrightarrow> length args < 3)"
  by (auto simp: planCallLogicalAnd_def planCallLogicalOr_def planCallEqual_def
      planCallNotEqual_def planCallConditional_def arg_at_def alloc_def)

lemma findFnDef_fst:
  "fst (findFnDef p fn on s) =
     (case (if on \<noteq> [] then disp_FindOverload p on else None) of
        Some i \<Rightarrow> Some i
      | None \<Rightarrow> disp_FindOverload p fn)"
  by (auto simp: findFnDef_def Let_def split: option.splits)

text \<open>
  Claim C1. A call named after logical AND, logical OR, the conditional, equality or
  inequality never reaches the generic dispatch. Once the target and the arguments are
  planned, \<open>planCall\<close> builds the node dedicated to the operator from the planned
  arguments (or panics on a missing argument, see C9), whatever the dispatcher holds:
  the dispatcher is not called between the planning of the arguments and the return,
  and replacing the dispatcher by any other does not change what is built from the
  planned arguments.
\<close>

theorem planCall_operator_specialised:
  assumes "fn \<in> {LogicalAnd, LogicalOr, Conditional, Equals, NotEquals}"
  shows "planCall p eid target fn args s =
           (case planCallArgs p target args s of
              (Inl f, s1) \<Rightarrow> (Inl f, s1)
            | (Inr planned, s1) \<Rightarrow>
                if length planned < operatorArity fn then (Inl (Panic IndexOutOfRange), s1)
                else alloc (operatorNode fn eid planned) s1)
         \<and> calls (snd (planCall p eid target fn args s)) =
           calls (snd (planCallArgs p target args s))
         \<and> planCallDispatch (p\<lparr>disp_FindOverload := d\<rparr>) eid fn planned s' =
           planCallDispatch p eid fn planned s'"
proof -
  have eq: "planCall p eid target fn args s =
           (case planCallArgs p target args s of
              (Inl f, s1) \<Rightarrow> (Inl f, s1)
            | (Inr planned, s1) \<Rightarrow>
                if length planned < operatorArity fn then (Inl (Panic IndexOutOfRange), s1)
                else alloc (operatorNode fn eid planned) s1)"
    by (simp add: planCallDispatch_operator [OF assms] split: prod.splits sum.splits
        del: planCallArgs.simps)
  have "calls (snd (planCall p eid target fn args s)) =
           calls (snd (planCallArgs p target args s))"
    unfolding eq by (simp add: alloc_def split: prod.splits sum.splits del: planCallArgs.simps)
  moreover have "planCallDispatch (p\<lparr>disp_FindOverload := d\<rparr>) eid fn planned s' =
           planCallDispatch p eid fn planned s'"
    by (simp only: planCallDispatch_operator [OF assms])
  ultimately show ?thesis using eq by simp
qed

theorem planCall_operator_specialised_witness:
  "LogicalAnd \<in> {LogicalAnd, LogicalOr, Conditional, Equals, NotEquals}
   \<and> exampleDisp LogicalAnd \<noteq> None
   \<and> planCall examplePlanner 1 NilExpr LogicalAnd
        [ConstExpr 2 (BoolValue True), ConstExpr 3 (BoolValue False)] newState =
      (Inr 2, newState\<lparr>heap := [EvalConst 2 (BoolVal True), EvalConst 3 (BoolVal False),
                                 EvalAnd 1 0 1]\<rparr>)
   \<and> calls (snd (planCall examplePlanner 1 NilExpr LogicalAnd
        [ConstExpr 2 (BoolValue True), ConstExpr 3 (BoolValue False)] newState)) = []"
  using planCall_operator_specialised [of LogicalAnd examplePlanner 1 NilExpr
      "[ConstExpr 2 (BoolValue True), ConstExpr 3 (BoolValue False)]" newState]
  by (simp add: examplePlanner_def exampleDisp_def newState_def decorate_def planConst_def
      alloc_def operatorNode_def operatorArity_def LogicalAnd_def Conditional_def)

text \<open>
  Claim C2. In the generic dispatch (a function name that is none of the five
  operators), with \<open>impl\<close> the overload found by overload id, else by function name:
  a call without arguments fails with "no such overload" when nothing is found or the
  entry has no \<open>Function\<close>; a call with one, two or more arguments fails with
  "no such overload" when an entry is found that lacks the \<open>Unary\<close>, \<open>Binary\<close> or
  \<open>Function\<close> form; and a call with one, two or more arguments for which nothing is
  found is planned with a nil implementation.
\<close>

theorem generic_dispatch_outcomes:
  assumes "fn \<notin> {LogicalAnd, LogicalOr, Conditional, Equals, NotEquals}"
    and "findFnDef p fn (overloadName p eid) s = (impl, s1)"
  shows "(length args = 0 \<and> (impl = None \<or> (\<exists>i. impl = Some i \<and> Function i = None)) \<longrightarrow>
            planCallDispatch p eid fn args s = (Inl (Error (NoSuchOverload (fn @ ''()''))), s1))
     \<and> (\<forall>i. length args = 1 \<and> impl = Some i \<and> Unary i = None \<longrightarrow>
            planCallDispatch p eid fn args s = (Inl (Error (NoSuchOverload (fn @ ''(arg)''))), s1))
     \<and> (\<forall>i. length args = 2 \<and> impl = Some i \<and> Binary i = None \<longrightarrow>
            planCallDispatch p eid fn args s =
              (Inl (Error (NoSuchOverload (fn @ ''(lhs, rhs)''))), s1))
     \<and> (\<forall>i. 2 < length args \<and> impl = Some i \<and> Function i = None \<longrightarrow>
            planCallDispatch p eid fn args s = (Inl (Error (NoSuchOverload (fn @ ''(...)''))), s1))
     \<and> (length args = 1 \<and> impl = None \<longrightarrow>
            planCallDispatch p eid fn args s =
              alloc (EvalUnary eid fn (overloadName p eid) (args ! 0) 0 None) s1)
     \<and> (length args = 2 \<and> impl = None \<longrightarrow>
            planCallDispatch p eid fn args s =
              alloc (EvalBinary eid fn (overloadName p eid) (args ! 0) (args ! 1) 0 None) s1)
     \<and> (2 < length args \<and> impl = None \<longrightarrow>
            planCallDispatch p eid fn args s =
              alloc (EvalVarArgs eid fn (overloadName p eid) args 0 None) s1)
     \<and> impl = (case (if overloadName p eid \<noteq> [] then disp_FindOverload p (overloadName p eid)
                      else None) of
                 Some i \<Rightarrow> Some i
               | None \<Rightarrow> disp_FindOverload p fn)"
proof -
  have d: "planCallDispatch p eid fn args s =
     (if length args = 0 then planCallZero eid fn (overloadName p eid) impl s1
      else if length args = 1 then planCallUnary eid fn (overloadName p eid) impl args s1
      else if length args = 2 then planCallBinary eid fn (overloadName p eid) impl args s1
      else planCallVarArgs eid fn (overloadName p eid) impl args s1)"
    using assms by (simp add: planCallDispatch_def Let_def)
  have i: "impl = (case (if overloadName p eid \<noteq> [] then disp_FindOverload p (overloadName p eid)
                      else None) of
                 Some i \<Rightarrow> Some i
               | None \<Rightarrow> disp_FindOverload p fn)"
    using findFnDef_fst [of p fn "overloadName p eid" s] assms(2) by simp
  show ?thesis
    unfolding d
    apply (rule conjI,
        (auto simp: planCallZero_def planCallUnary_def planCallBinary_def planCallVarArgs_def
          arg_at_def)[1])+
    apply (rule i)
    done
qed

theorem generic_dispatch_outcomes_witness:
  "''f'' \<notin> {LogicalAnd, LogicalOr, Conditional, Equals, NotEquals}
   \<and> findFnDef examplePlanner ''f'' (overloadName examplePlanner 1) newState =
       (None, newState\<lparr>calls := [FindOverload ''f'']\<rparr>)
   \<and> planCallDispatch examplePlanner 1 ''f'' [] newState =
       (Inl (Error (NoSuchOverload ''f()'')), newState\<lparr>calls := [FindOverload ''f'']\<rparr>)
   \<and> planCallDispatch examplePlanner 1 ''f'' [3, 4] newState =
       (Inr 0, newState\<lparr>calls := [FindOverload ''f''],
                        heap := [EvalBinary 1 ''f'' [] 3 4 0 None]\<rparr>)"
  using generic_dispatch_outcomes [of "''f''" examplePlanner 1 newState None
      "newState\<lparr>calls := [FindOverload ''f'']\<rparr>" "[]"]
    generic_dispatch_outcomes [of "''f''" examplePlanner 1 newState None
      "newState\<lparr>calls := [FindOverload ''f'']\<rparr>" "[3, 4]"]
  by (simp add: examplePlanner_def exampleDisp_def exampleRefs_def newState_def findFnDef_def
      overloadName_def record_call_def alloc_def LogicalAnd_def LogicalOr_def Conditional_def
      Equals_def NotEquals_def)

text \<open>
  Claim C9. The operator planners read \<open>args[0]\<close>, \<open>args[1]\<close> (and \<open>args[2]\<close> for the
  conditional) with no check of the length. When the target and the arguments of a call
  named after one of the operators are planned, the slice holds one entry for each of
  them (the target included); with fewer entries than the operator reads, planning the
  call panics with an index out of range, and no error is returned; with enough
  entries it does not panic. Each operator planner by itself panics exactly on a slice
  shorter than the positions it reads.
\<close>

theorem operator_call_crashes_below_arity:
  assumes "fn \<in> {LogicalAnd, LogicalOr, Conditional, Equals, NotEquals}"
    and "planCallArgs p target args s = (Inr planned, s1)"
  shows "length planned = length args + (if target = NilExpr then 0 else 1)
     \<and> (planCallDispatch p eid fn planned s1 = (Inl (Panic IndexOutOfRange), s1)
          \<longleftrightarrow> length planned < operatorArity fn)
     \<and> (length planned < operatorArity fn \<longrightarrow>
          Plan p (CallExpr eid target fn args) s = (Inl (Panic IndexOutOfRange), s1))
     \<and> (operatorArity fn \<le> length planned \<longrightarrow>
          (\<forall>pn. fst (Plan p (CallExpr eid target fn args) s) \<noteq> Inl (Panic pn)))
     \<and> (planCallLogicalAnd eid xs s' = (Inl (Panic IndexOutOfRange), s') \<longleftrightarrow> length xs < 2)
     \<and> (planCallLogicalOr eid xs s' = (Inl (Panic IndexOutOfRange), s') \<longleftrightarrow> length xs < 2)
     \<and> (planCallEqual eid xs s' = (Inl (Panic IndexOutOfRange), s') \<longleftrightarrow> length xs < 2)
     \<and> (planCallNotEqual eid xs s' = (Inl (Panic IndexOutOfRange), s') \<longleftrightarrow> length xs < 2)
     \<and> (planCallConditional eid xs s' = (Inl (Panic IndexOutOfRange), s') \<longleftrightarrow> length xs < 3)"
proof -
  have d: "planCallDispatch p eid fn planned s1 =
     (if length planned < operatorArity fn then (Inl (Panic IndexOutOfRange), s1)
      else alloc (operatorNode fn eid planned) s1)"
    by (rule planCallDispatch_operator [OF assms(1)])
  have c: "planCall p eid target fn args s = planCallDispatch p eid fn planned s1"
    using assms(2) by (simp del: planCallArgs.simps)
  have 1: "length planned = length args + (if target = NilExpr then 0 else 1)"
    by (rule planCallArgs_length [OF assms(2)])
  have 2: "planCallDispatch p eid fn planned s1 = (Inl (Panic IndexOutOfRange), s1)
          \<longleftrightarrow> length planned < operatorArity fn"
    unfolding d by (simp add: alloc_def)
  have 3: "length planned < operatorArity fn \<longrightarrow>
          Plan p (CallExpr eid target fn args) s = (Inl (Panic IndexOutOfRange), s1)"
    by (simp add: c d decorate_def del: planCall.simps)
  have 4: "operatorArity fn \<le> length planned \<longrightarrow>
          (\<forall>pn. fst (Plan p (CallExpr eid target fn args) s) \<noteq> Inl (Panic pn))"
    by (simp add: c d decorate_def alloc_def decorate_loop_no_panic del: planCall.simps)
  from 1 2 3 4 operator_planners_unchecked_arity [of eid xs s'] show ?thesis by blast
qed

theorem operator_call_crashes_below_arity_witness:
  "Conditional \<in> {LogicalAnd, LogicalOr, Conditional, Equals, NotEquals}
   \<and> planCallArgs examplePlanner NilExpr
        [ConstExpr 2 (BoolValue True), ConstExpr 3 (BoolValue False)] newState =
       (Inr [0, 1], newState\<lparr>heap := [EvalConst 2 (BoolVal True), EvalConst 3 (BoolVal False)]\<rparr>)
   \<and> Plan examplePlanner (CallExpr 1 NilExpr Conditional
        [ConstExpr 2 (BoolValue True), ConstExpr 3 (BoolValue False)]) newState =
       (Inl (Panic IndexOutOfRange),
        newState\<lparr>heap := [EvalConst 2 (BoolVal True), EvalConst 3 (BoolVal False)]\<rparr>)"
  using operator_call_crashes_below_arity [of Conditional examplePlanner NilExpr
      "[ConstExpr 2 (BoolValue True), ConstExpr 3 (BoolValue False)]" newState "[0, 1]"
      "newState\<lparr>heap := [EvalConst 2 (BoolVal True), EvalConst 3 (BoolVal False)]\<rparr>" 1]
  by (simp add: examplePlanner_def newState_def decorate_def planConst_def alloc_def
      operatorArity_def)

subsection \<open>Identifiers\<close>

lemma grows_identMap: "grows s s' \<Longrightarrow> identMap s n = Some a \<Longrightarrow> identMap s' n = Some a"
  by (auto simp: grows_def map_le_def dom_def)

lemma grows_heap_nth: "grows s s' \<Longrightarrow> a < length (heap s) \<Longrightarrow> heap s' ! a = heap s ! a"
  by (auto simp: grows_def prefix_def nth_append)

lemma planIdent_cached:
  "identMap s n = Some a \<Longrightarrow> planIdent p eid n s = (Inr a, s)"
  by (simp add: planIdent_def)

lemma planSelect_static_cached:
  assumes "identMap s n = Some a" "refMap p eid = Some r" "ref_Value r = None" "ref_Name r = n"
  shows "planSelect p eid operand field False s = (Inr a, s)"
  using assms by simp

lemma planIdent_caches:
  assumes "planIdent p eid n s = (r, s1)"
  shows "\<exists>a. r = Inr a \<and> identMap s1 n = Some a"
  using assms by (auto simp: planIdent_def Let_def split: option.splits)

lemma planSelect_static_caches:
  assumes "refMap p eid = Some rf" "ref_Value rf = None" "ref_Name rf = n"
    and "planSelect p eid operand field False s = (r, s1)"
  shows "\<exists>a. r = Inr a \<and> identMap s1 n = Some a"
  using assms by (auto simp: Let_def split: option.splits)

lemma planIdent_fresh:
  assumes "identMap s n = None"
  shows "planIdent p eid n s =
     (Inr (length (heap s)),
      s\<lparr>identMap := (identMap s)(n \<mapsto> length (heap s)),
        heap := heap s @ [EvalIdent eid n (if pkg_Package p \<noteq> [] then Some n else None)]\<rparr>)"
  using assms by (simp add: planIdent_def Let_def)

lemma planSelect_static_fresh:
  assumes "identMap s n = None" "refMap p eid = Some rf" "ref_Value rf = None" "ref_Name rf = n"
  shows "planSelect p eid operand field False s =
     (Inr (length (heap s)),
      s\<lparr>identMap := (identMap s)(n \<mapsto> length (heap s)),
        heap := heap s @ [EvalIdent eid n None]\<rparr>)"
  using assms by (simp add: Let_def)

lemma decorate_loop_identMap: "identMap (snd (decorate_loop ds k i s)) = identMap s"
  by (induction ds arbitrary: k i s)
     (auto simp: Let_def record_call_def split: sum.splits prod.splits)

lemma decorate_loop_calls_first:
  "prefix (calls s @ [Decorate k i]) (calls (snd (decorate_loop (d # ds) k i s)))"
proof (cases "d i (heap (record_call (Decorate k i) s))")
  case (Inl e)
  then show ?thesis by (simp add: record_call_def)
next
  case (Inr x)
  obtain new j where x: "x = (new, j)" by (cases x)
  let ?s1 = "(record_call (Decorate k i) s)\<lparr>heap := heap (record_call (Decorate k i) s) @ new\<rparr>"
  have "grows ?s1 (snd (decorate_loop ds (Suc k) j ?s1))" by (rule grows_decorate_loop)
  then have "prefix (calls ?s1) (calls (snd (decorate_loop ds (Suc k) j ?s1)))"
    by (simp add: grows_def)
  then show ?thesis using Inr x by (simp add: Let_def record_call_def)
qed

lemma decorate_no_decorators: "decorators p = [] \<Longrightarrow> decorate p r = r"
  by (cases r; cases "fst r") (auto simp: decorate_def)

text \<open>
  Claim C3, amended. Within one compilation, once a name has been planned, as a bare
  identifier (\<open>planIdent\<close>) or as a select that the reference map resolves to that
  name (\<open>planSelect\<close>), these two planners return, after any further planning, the
  very node that the first occurrence built and cached: the same address, with the
  state unchanged. \<open>Plan\<close> then passes that node through the decorator chain, so a
  reference yields the cached instance itself when no decorator is registered, and
  otherwise whatever the decorators make of it at that reference.
\<close>

theorem identifier_node_shared:
  assumes first: "planIdent p eid1 n s0 = (r, s1)
      \<or> (refMap p eid1 = Some ref1 \<and> ref_Value ref1 = None \<and> ref_Name ref1 = n
          \<and> planSelect p eid1 operand1 field1 False s0 = (r, s1))"
    and between: "planExprs p es s1 = (rs, s2)"
  shows "\<exists>a. r = Inr a
     \<and> planIdent p eid2 n s2 = (Inr a, s2)
     \<and> (\<forall>ref2 operand2 field2.
          refMap p eid2 = Some ref2 \<and> ref_Value ref2 = None \<and> ref_Name ref2 = n \<longrightarrow>
          planSelect p eid2 operand2 field2 False s2 = (Inr a, s2))
     \<and> Plan p (IdentExpr eid2 n) s2 = decorate p (Inr a, s2)
     \<and> (\<forall>ref2 operand2 field2.
          refMap p eid2 = Some ref2 \<and> ref_Value ref2 = None \<and> ref_Name ref2 = n \<longrightarrow>
          Plan p (SelectExpr eid2 operand2 field2 False) s2 = decorate p (Inr a, s2))
     \<and> (decorators p = [] \<longrightarrow>
          Plan p (IdentExpr eid1 n) s0 = planIdent p eid1 n s0
          \<and> Plan p (SelectExpr eid1 operand1 field1 False) s0 =
              planSelect p eid1 operand1 field1 False s0
          \<and> Plan p (IdentExpr eid2 n) s2 = (Inr a, s2)
          \<and> (\<forall>ref2 operand2 field2.
               refMap p eid2 = Some ref2 \<and> ref_Value ref2 = None \<and> ref_Name ref2 = n \<longrightarrow>
               Plan p (SelectExpr eid2 operand2 field2 False) s2 = (Inr a, s2)))"
proof -
  from first obtain a where a: "r = Inr a" "identMap s1 n = Some a"
    using planIdent_caches planSelect_static_caches by blast
  have "grows s1 s2" using grows_Plan(5) [of s1 p es] between by simp
  then have c: "identMap s2 n = Some a" using a(2) by (rule grows_identMap)
  have 1: "planIdent p eid2 n s2 = (Inr a, s2)" using c by (rule planIdent_cached)
  have 2: "\<forall>ref2 operand2 field2.
          refMap p eid2 = Some ref2 \<and> ref_Value ref2 = None \<and> ref_Name ref2 = n \<longrightarrow>
          planSelect p eid2 operand2 field2 False s2 = (Inr a, s2)"
    using c by (auto simp del: planSelect.simps intro: planSelect_static_cached)
  have 3: "Plan p (IdentExpr eid2 n) s2 = decorate p (Inr a, s2)"
    by (simp only: Plan.simps(3) 1)
  have 4: "\<forall>ref2 operand2 field2.
          refMap p eid2 = Some ref2 \<and> ref_Value ref2 = None \<and> ref_Name ref2 = n \<longrightarrow>
          Plan p (SelectExpr eid2 operand2 field2 False) s2 = decorate p (Inr a, s2)"
    using 2 by (simp only: Plan.simps(4)) simp
  have 5: "decorators p = [] \<longrightarrow>
          Plan p (IdentExpr eid1 n) s0 = planIdent p eid1 n s0
          \<and> Plan p (SelectExpr eid1 operand1 field1 False) s0 =
              planSelect p eid1 operand1 field1 False s0
          \<and> Plan p (IdentExpr eid2 n) s2 = (Inr a, s2)
          \<and> (\<forall>ref2 operand2 field2.
               refMap p eid2 = Some ref2 \<and> ref_Value ref2 = None \<and> ref_Name ref2 = n \<longrightarrow>
               Plan p (SelectExpr eid2 operand2 field2 False) s2 = (Inr a, s2))"
  proof
    assume d: "decorators p = []"
    have i: "Plan p (IdentExpr eid1 n) s0 = planIdent p eid1 n s0"
      by (simp only: Plan.simps(3) decorate_no_decorators [OF d])
    have ii: "Plan p (SelectExpr eid1 operand1 field1 False) s0 =
              planSelect p eid1 operand1 field1 False s0"
      by (simp only: Plan.simps(4) decorate_no_decorators [OF d])
    have iii: "Plan p (IdentExpr eid2 n) s2 = (Inr a, s2)"
      by (simp only: 3 decorate_no_decorators [OF d])
    have iv: "\<forall>ref2 operand2 field2.
               refMap p eid2 = Some ref2 \<and> ref_Value ref2 = None \<and> ref_Name ref2 = n \<longrightarrow>
               Plan p (SelectExpr eid2 operand2 field2 False) s2 = (Inr a, s2)"
      using 4 by (simp only: decorate_no_decorators [OF d])
    from i ii iii iv show "Plan p (IdentExpr eid1 n) s0 = planIdent p eid1 n s0
          \<and> Plan p (SelectExpr eid1 operand1 field1 False) s0 =
              planSelect p eid1 operand1 field1 False s0
          \<and> Plan p (IdentExpr eid2 n) s2 = (Inr a, s2)
          \<and> (\<forall>ref2 operand2 field2.
               refMap p eid2 = Some ref2 \<and> ref_Value ref2 = None \<and> ref_Name ref2 = n \<longrightarrow>
               Plan p (SelectExpr eid2 operand2 field2 False) s2 = (Inr a, s2))"
      by blast
  qed
  from a(1) 1 2 3 4 5 show ?thesis by blast
qed

theorem identifier_node_shared_witness:
  "decorators examplePlanner = []
   \<and> planIdent examplePlanner 1 ''pkg.x'' newState =
     (Inr 0, \<lparr>identMap = [''pkg.x'' \<mapsto> 0], heap = [EvalIdent 1 ''pkg.x'' (Some ''pkg.x'')], calls = []\<rparr>)
   \<and> planExprs examplePlanner [IdentExpr 2 ''y'']
       \<lparr>identMap = [''pkg.x'' \<mapsto> 0], heap = [EvalIdent 1 ''pkg.x'' (Some ''pkg.x'')], calls = []\<rparr> =
     (Inr [1], \<lparr>identMap = [''pkg.x'' \<mapsto> 0, ''y'' \<mapsto> 1],
        heap = [EvalIdent 1 ''pkg.x'' (Some ''pkg.x''), EvalIdent 2 ''y'' (Some ''y'')], calls = []\<rparr>)
   \<and> fst (planIdent examplePlanner 10 ''pkg.x''
       \<lparr>identMap = [''pkg.x'' \<mapsto> 0, ''y'' \<mapsto> 1],
        heap = [EvalIdent 1 ''pkg.x'' (Some ''pkg.x''), EvalIdent 2 ''y'' (Some ''y'')], calls = []\<rparr>) = Inr 0
   \<and> fst (planSelect examplePlanner 10 (IdentExpr 4 ''pkg'') ''x'' False
       \<lparr>identMap = [''pkg.x'' \<mapsto> 0, ''y'' \<mapsto> 1],
        heap = [EvalIdent 1 ''pkg.x'' (Some ''pkg.x''), EvalIdent 2 ''y'' (Some ''y'')], calls = []\<rparr>) = Inr 0
   \<and> fst (Plan examplePlanner (IdentExpr 10 ''pkg.x'')
       \<lparr>identMap = [''pkg.x'' \<mapsto> 0, ''y'' \<mapsto> 1],
        heap = [EvalIdent 1 ''pkg.x'' (Some ''pkg.x''), EvalIdent 2 ''y'' (Some ''y'')], calls = []\<rparr>) = Inr 0
   \<and> fst (Plan examplePlanner (SelectExpr 10 (IdentExpr 4 ''pkg'') ''x'' False)
       \<lparr>identMap = [''pkg.x'' \<mapsto> 0, ''y'' \<mapsto> 1],
        heap = [EvalIdent 1 ''pkg.x'' (Some ''pkg.x''), EvalIdent 2 ''y'' (Some ''y'')], calls = []\<rparr>) = Inr 0"
  using identifier_node_shared [where p = examplePlanner and ?eid1.0 = 1 and n = "''pkg.x''"
      and ?s0.0 = newState and r = "Inr 0"
      and ?s1.0 = "\<lparr>identMap = [''pkg.x'' \<mapsto> 0],
                    heap = [EvalIdent 1 ''pkg.x'' (Some ''pkg.x'')], calls = []\<rparr>"
      and ?ref1.0 = "\<lparr>ref_Name = [], ref_OverloadId = [], ref_Value = None\<rparr>"
      and ?operand1.0 = NilExpr and ?field1.0 = "[]"
      and es = "[IdentExpr 2 ''y'']" and rs = "Inr [1]"
      and ?s2.0 = "\<lparr>identMap = [''pkg.x'' \<mapsto> 0, ''y'' \<mapsto> 1],
                    heap = [EvalIdent 1 ''pkg.x'' (Some ''pkg.x''), EvalIdent 2 ''y'' (Some ''y'')],
                    calls = []\<rparr>"
      and ?eid2.0 = 10]
  by (simp add: examplePlanner_def exampleRefs_def newState_def planIdent_def decorate_def)

text \<open>
  Claim C3 as it stands fails: with a wrapping decorator, the two references to \<open>x\<close>
  in \<open>x == x\<close> reach the equality node as two different instances, the wrappers 1 and
  2 of the cached identifier node 0.
\<close>

theorem identifier_reference_identical_counterexample:
  "fst (Plan watchingPlanner
          (CallExpr 3 NilExpr Equals [IdentExpr 1 ''x'', IdentExpr 2 ''x'']) newState) = Inr 4
   \<and> heap (snd (Plan watchingPlanner
          (CallExpr 3 NilExpr Equals [IdentExpr 1 ''x'', IdentExpr 2 ''x'']) newState)) =
       [EvalIdent 1 ''x'' (Some ''x''), EvalOther ''watch'' [0], EvalOther ''watch'' [0],
        EvalEq 3 1 2, EvalOther ''watch'' [3]]"
  by (simp add: watchingPlanner_def examplePlanner_def watchDec_def record_call_def newState_def
      planIdent_def decorate_def planCallDispatch_def planCallEqual_def arg_at_def alloc_def
      overloadName_def Equals_def LogicalAnd_def LogicalOr_def Conditional_def)

text \<open>
  Claim C10. The cache is keyed by the name alone and both paths use it. For a name
  not yet cached, the path that plans it first builds the node: a bare identifier
  attaches a resolver exactly when the package is not empty, a select resolved by the
  reference map attaches none. The other path, planning the same name later, returns
  that node as it was built.
\<close>

theorem first_construction_wins:
  assumes fresh: "identMap s0 n = None"
    and between: "planExprs p es s1 = (rs, s2)"
  shows "(planIdent p eid1 n s0 = (r, s1) \<longrightarrow>
            (\<exists>a. r = Inr a \<and> a < length (heap s2)
               \<and> heap s2 ! a = EvalIdent eid1 n (if pkg_Package p \<noteq> [] then Some n else None)
               \<and> (\<forall>ref2 operand2 field2.
                    refMap p eid2 = Some ref2 \<and> ref_Value ref2 = None \<and> ref_Name ref2 = n \<longrightarrow>
                    planSelect p eid2 operand2 field2 False s2 = (Inr a, s2))))
     \<and> (refMap p eid1 = Some ref1 \<and> ref_Value ref1 = None \<and> ref_Name ref1 = n
          \<and> planSelect p eid1 operand1 field1 False s0 = (r, s1) \<longrightarrow>
            (\<exists>a. r = Inr a \<and> a < length (heap s2)
               \<and> heap s2 ! a = EvalIdent eid1 n None
               \<and> planIdent p eid2 n s2 = (Inr a, s2)))"
proof -
  have g: "grows s1 s2" using grows_Plan(5) [of s1 p es] between by simp
  have step: "\<exists>a. r = Inr a \<and> a < length (heap s2) \<and> heap s2 ! a = nd \<and> identMap s2 n = Some a"
    if "r = Inr (length (heap s0))"
      and "s1 = s0\<lparr>identMap := (identMap s0)(n \<mapsto> length (heap s0)), heap := heap s0 @ [nd]\<rparr>"
    for nd
  proof -
    let ?a = "length (heap s0)"
    have 1: "?a < length (heap s1)" and 2: "heap s1 ! ?a = nd" and 3: "identMap s1 n = Some ?a"
      using that(2) by simp_all
    have "heap s2 ! ?a = nd" using grows_heap_nth [OF g 1] 2 by simp
    moreover have "?a < length (heap s2)"
      using g 1 by (auto simp: grows_def prefix_def)
    moreover have "identMap s2 n = Some ?a" using g 3 by (rule grows_identMap)
    ultimately show ?thesis using that(1) by blast
  qed
  have A: "planIdent p eid1 n s0 = (r, s1) \<longrightarrow>
            (\<exists>a. r = Inr a \<and> a < length (heap s2)
               \<and> heap s2 ! a = EvalIdent eid1 n (if pkg_Package p \<noteq> [] then Some n else None)
               \<and> (\<forall>ref2 operand2 field2.
                    refMap p eid2 = Some ref2 \<and> ref_Value ref2 = None \<and> ref_Name ref2 = n \<longrightarrow>
                    planSelect p eid2 operand2 field2 False s2 = (Inr a, s2)))"
  proof
    assume h: "planIdent p eid1 n s0 = (r, s1)"
    from h planIdent_fresh [OF fresh, of p eid1]
    have "r = Inr (length (heap s0))"
      and "s1 = s0\<lparr>identMap := (identMap s0)(n \<mapsto> length (heap s0)),
              heap := heap s0 @ [EvalIdent eid1 n (if pkg_Package p \<noteq> [] then Some n else None)]\<rparr>"
      by simp_all
    from step [OF this] obtain a where a: "r = Inr a" "a < length (heap s2)"
      "heap s2 ! a = EvalIdent eid1 n (if pkg_Package p \<noteq> [] then Some n else None)"
      "identMap s2 n = Some a" by blast
    have "\<forall>ref2 operand2 field2.
          refMap p eid2 = Some ref2 \<and> ref_Value ref2 = None \<and> ref_Name ref2 = n \<longrightarrow>
          planSelect p eid2 operand2 field2 False s2 = (Inr a, s2)"
      using a(4) by (auto simp del: planSelect.simps intro: planSelect_static_cached)
    with a(1-3) show "\<exists>a. r = Inr a \<and> a < length (heap s2)
               \<and> heap s2 ! a = EvalIdent eid1 n (if pkg_Package p \<noteq> [] then Some n else None)
               \<and> (\<forall>ref2 operand2 field2.
                    refMap p eid2 = Some ref2 \<and> ref_Value ref2 = None \<and> ref_Name ref2 = n \<longrightarrow>
                    planSelect p eid2 operand2 field2 False s2 = (Inr a, s2))" by blast
  qed
  have B: "refMap p eid1 = Some ref1 \<and> ref_Value ref1 = None \<and> ref_Name ref1 = n
          \<and> planSelect p eid1 operand1 field1 False s0 = (r, s1) \<longrightarrow>
            (\<exists>a. r = Inr a \<and> a < length (heap s2)
               \<and> heap s2 ! a = EvalIdent eid1 n None
               \<and> planIdent p eid2 n s2 = (Inr a, s2))"
  proof
    assume h: "refMap p eid1 = Some ref1 \<and> ref_Value ref1 = None \<and> ref_Name ref1 = n
          \<and> planSelect p eid1 operand1 field1 False s0 = (r, s1)"
    then have "planSelect p eid1 operand1 field1 False s0 =
     (Inr (length (heap s0)),
      s0\<lparr>identMap := (identMap s0)(n \<mapsto> length (heap s0)),
        heap := heap s0 @ [EvalIdent eid1 n None]\<rparr>)"
      using planSelect_static_fresh [OF fresh, of p eid1 ref1 operand1 field1] by blast
    with h have "r = Inr (length (heap s0))"
      and "s1 = s0\<lparr>identMap := (identMap s0)(n \<mapsto> length (heap s0)),
              heap := heap s0 @ [EvalIdent eid1 n None]\<rparr>"
      by (simp_all del: planSelect.simps)
    from step [OF this] obtain a where a: "r = Inr a" "a < length (heap s2)"
      "heap s2 ! a = EvalIdent eid1 n None" "identMap s2 n = Some a" by blast
    from a(4) have "planIdent p eid2 n s2 = (Inr a, s2)" by (rule planIdent_cached)
    with a(1-3) show "\<exists>a. r = Inr a \<and> a < length (heap s2)
               \<and> heap s2 ! a = EvalIdent eid1 n None
               \<and> planIdent p eid2 n s2 = (Inr a, s2)" by blast
  qed
  from A B show ?thesis by (rule conjI)
qed

theorem first_construction_wins_witness:
  "identMap newState ''pkg.x'' = None
   \<and> pkg_Package examplePlanner \<noteq> []
   \<and> planSelect examplePlanner 10 (IdentExpr 4 ''pkg'') ''x'' False newState =
       (Inr 0, \<lparr>identMap = [''pkg.x'' \<mapsto> 0], heap = [EvalIdent 10 ''pkg.x'' None], calls = []\<rparr>)
   \<and> planExprs examplePlanner []
        \<lparr>identMap = [''pkg.x'' \<mapsto> 0], heap = [EvalIdent 10 ''pkg.x'' None], calls = []\<rparr> =
       (Inr [], \<lparr>identMap = [''pkg.x'' \<mapsto> 0], heap = [EvalIdent 10 ''pkg.x'' None], calls = []\<rparr>)
   \<and> planIdent examplePlanner 1 ''pkg.x''
        \<lparr>identMap = [''pkg.x'' \<mapsto> 0], heap = [EvalIdent 10 ''pkg.x'' None], calls = []\<rparr> =
       (Inr 0, \<lparr>identMap = [''pkg.x'' \<mapsto> 0], heap = [EvalIdent 10 ''pkg.x'' None], calls = []\<rparr>)"
  using first_construction_wins [where p = examplePlanner and ?eid1.0 = 10 and n = "''pkg.x''"
      and ?s0.0 = newState and r = "Inr 0"
      and ?s1.0 = "\<lparr>identMap = [''pkg.x'' \<mapsto> 0], heap = [EvalIdent 10 ''pkg.x'' None],
                    calls = []\<rparr>"
      and ?ref1.0 = "\<lparr>ref_Name = ''pkg.x'', ref_OverloadId = [], ref_Value = None\<rparr>"
      and ?operand1.0 = "IdentExpr 4 ''pkg''" and ?field1.0 = "''x''"
      and es = "[]" and rs = "Inr []"
      and ?s2.0 = "\<lparr>identMap = [''pkg.x'' \<mapsto> 0], heap = [EvalIdent 10 ''pkg.x'' None],
                    calls = []\<rparr>"
      and ?eid2.0 = 1]
  by (simp add: examplePlanner_def exampleRefs_def newState_def planIdent_def Let_def)

text \<open>
  Claim C4, amended. The cache holds the identifier node as \<open>planIdent\<close> built it,
  before decoration, and \<open>Plan\<close> passes what \<open>planIdent\<close> returns through the whole
  decorator chain at every reference: for a cached name the chain is applied to the
  cached node again (with a decorator registered, the first one is called on it), and
  the cache keeps the undecorated node; for a new name the chain is applied to the new
  node, which is cached undecorated.
\<close>

theorem identifier_decorated_at_every_reference:
  "(identMap s n = Some a \<longrightarrow>
      Plan p (IdentExpr eid n) s = decorate_loop (decorators p) 0 a s
      \<and> identMap (snd (Plan p (IdentExpr eid n) s)) n = Some a
      \<and> (decorators p \<noteq> [] \<longrightarrow>
           prefix (calls s @ [Decorate 0 a]) (calls (snd (Plan p (IdentExpr eid n) s)))))
   \<and> (identMap s n = None \<longrightarrow>
      Plan p (IdentExpr eid n) s =
        decorate_loop (decorators p) 0 (length (heap s))
          (s\<lparr>identMap := (identMap s)(n \<mapsto> length (heap s)),
             heap := heap s @ [EvalIdent eid n (if pkg_Package p \<noteq> [] then Some n else None)]\<rparr>)
      \<and> identMap (snd (Plan p (IdentExpr eid n) s)) n = Some (length (heap s)))"
proof -
  have A: "Plan p (IdentExpr eid n) s = decorate_loop (decorators p) 0 a s
      \<and> identMap (snd (Plan p (IdentExpr eid n) s)) n = Some a
      \<and> (decorators p \<noteq> [] \<longrightarrow>
           prefix (calls s @ [Decorate 0 a]) (calls (snd (Plan p (IdentExpr eid n) s))))"
    if h: "identMap s n = Some a"
  proof -
    have e: "Plan p (IdentExpr eid n) s = decorate_loop (decorators p) 0 a s"
      by (simp add: planIdent_cached [OF h] decorate_def)
    have c: "decorators p \<noteq> [] \<longrightarrow>
           prefix (calls s @ [Decorate 0 a]) (calls (snd (decorate_loop (decorators p) 0 a s)))"
      using decorate_loop_calls_first [of s 0 a] by (cases "decorators p") simp_all
    show ?thesis unfolding e using h c by (simp add: decorate_loop_identMap)
  qed
  have B: "Plan p (IdentExpr eid n) s =
        decorate_loop (decorators p) 0 (length (heap s))
          (s\<lparr>identMap := (identMap s)(n \<mapsto> length (heap s)),
             heap := heap s @ [EvalIdent eid n (if pkg_Package p \<noteq> [] then Some n else None)]\<rparr>)
      \<and> identMap (snd (Plan p (IdentExpr eid n) s)) n = Some (length (heap s))"
    if h: "identMap s n = None"
  proof -
    have e: "Plan p (IdentExpr eid n) s =
        decorate_loop (decorators p) 0 (length (heap s))
          (s\<lparr>identMap := (identMap s)(n \<mapsto> length (heap s)),
             heap := heap s @ [EvalIdent eid n (if pkg_Package p \<noteq> [] then Some n else None)]\<rparr>)"
      by (simp add: planIdent_fresh [OF h] decorate_def)
    show ?thesis unfolding e by (simp add: decorate_loop_identMap)
  qed
  from A B show ?thesis by blast
qed

theorem identifier_decorated_at_every_reference_witness:
  "identMap \<lparr>identMap = [''x'' \<mapsto> 0], heap = [EvalIdent 1 ''x'' (Some ''x'')], calls = []\<rparr> ''x'' = Some 0
   \<and> Plan watchingPlanner (IdentExpr 2 ''x'')
       \<lparr>identMap = [''x'' \<mapsto> 0], heap = [EvalIdent 1 ''x'' (Some ''x'')], calls = []\<rparr> =
     (Inr 1, \<lparr>identMap = [''x'' \<mapsto> 0],
              heap = [EvalIdent 1 ''x'' (Some ''x''), EvalOther ''watch'' [0]],
              calls = [Decorate 0 0]\<rparr>)"
  using identifier_decorated_at_every_reference [of
      "\<lparr>identMap = [''x'' \<mapsto> 0], heap = [EvalIdent 1 ''x'' (Some ''x'')], calls = []\<rparr>"
      "''x''" 0 watchingPlanner 2]
  by (simp add: watchingPlanner_def examplePlanner_def watchDec_def record_call_def)

text \<open>
  Claim C4 as it stands fails: with a wrapping decorator, two references to \<open>x\<close> call
  the decorator twice on the cached node 0 and return two different wrappers.
\<close>

theorem identifier_decorated_once_counterexample:
  "fst (planExprs watchingPlanner [IdentExpr 1 ''x'', IdentExpr 2 ''x''] newState) = Inr [1, 2]
   \<and> heap (snd (planExprs watchingPlanner [IdentExpr 1 ''x'', IdentExpr 2 ''x''] newState)) =
       [EvalIdent 1 ''x'' (Some ''x''), EvalOther ''watch'' [0], EvalOther ''watch'' [0]]
   \<and> calls (snd (planExprs watchingPlanner [IdentExpr 1 ''x'', IdentExpr 2 ''x''] newState)) =
       [Decorate 0 0, Decorate 0 0]"
  by (simp add: watchingPlanner_def examplePlanner_def watchDec_def record_call_def newState_def
      planIdent_def decorate_def)

subsection \<open>Selects with a constant reference\<close>

lemma planSelect_constant:
  assumes "refMap p eid = Some rf" "ref_Value rf = Some v"
  shows "planSelect p eid operand field False s = Plan p (ConstExpr eid v) s"
  using assms by (simp add: Let_def)

text \<open>
  Claim C5, amended. For a select that is not test-only and whose reference carries a
  constant, \<open>planSelect\<close> returns exactly what \<open>Plan\<close> returns for that constant
  literal under the same id, and \<open>Plan\<close> of the select applies the decorator chain to
  that result once more. Without decorators, planning the select and planning the
  constant are identical.
\<close>

theorem select_constant_plans_as_constant:
  assumes "refMap p eid = Some rf" and "ref_Value rf = Some v"
  shows "planSelect p eid operand field False s = Plan p (ConstExpr eid v) s
     \<and> Plan p (SelectExpr eid operand field False) s = decorate p (Plan p (ConstExpr eid v) s)
     \<and> (decorators p = [] \<longrightarrow>
          Plan p (SelectExpr eid operand field False) s = Plan p (ConstExpr eid v) s)"
proof -
  have 1: "planSelect p eid operand field False s = Plan p (ConstExpr eid v) s"
    using assms by (rule planSelect_constant)
  have 2: "Plan p (SelectExpr eid operand field False) s = decorate p (Plan p (ConstExpr eid v) s)"
    by (simp only: Plan.simps(4) 1)
  have 3: "decorators p = [] \<longrightarrow>
          Plan p (SelectExpr eid operand field False) s = Plan p (ConstExpr eid v) s"
    unfolding 2 using decorate_no_decorators [of p "Plan p (ConstExpr eid v) s"] by blast
  from 1 2 3 show ?thesis by blast
qed

theorem select_constant_plans_as_constant_witness:
  "refMap watchingPlanner 11 =
     Some \<lparr>ref_Name = ''pkg.E.A'', ref_OverloadId = [], ref_Value = Some (Int64Value 1)\<rparr>
   \<and> planSelect watchingPlanner 11 (IdentExpr 2 ''E'') ''A'' False newState =
       (Inr 1, newState\<lparr>heap := [EvalConst 11 (IntVal 1), EvalOther ''watch'' [0]],
                        calls := [Decorate 0 0]\<rparr>)
   \<and> Plan watchingPlanner (ConstExpr 11 (Int64Value 1)) newState =
       (Inr 1, newState\<lparr>heap := [EvalConst 11 (IntVal 1), EvalOther ''watch'' [0]],
                        calls := [Decorate 0 0]\<rparr>)"
  using select_constant_plans_as_constant [of watchingPlanner 11
      "\<lparr>ref_Name = ''pkg.E.A'', ref_OverloadId = [], ref_Value = Some (Int64Value 1)\<rparr>"
      "Int64Value 1" "IdentExpr 2 ''E''" "''A''" newState]
  by (simp add: watchingPlanner_def examplePlanner_def exampleRefs_def watchDec_def
      record_call_def newState_def decorate_def planConst_def alloc_def Let_def)

text \<open>
  Claim C5 as it stands fails: with a wrapping decorator, the select plans to a wrapper
  of a wrapper of the constant, the constant literal to a wrapper of the constant.
\<close>

theorem select_constant_identical_counterexample:
  "fst (Plan watchingPlanner (SelectExpr 11 (IdentExpr 2 ''E'') ''A'' False) newState) = Inr 2
   \<and> heap (snd (Plan watchingPlanner (SelectExpr 11 (IdentExpr 2 ''E'') ''A'' False) newState)) =
       [EvalConst 11 (IntVal 1), EvalOther ''watch'' [0], EvalOther ''watch'' [1]]
   \<and> fst (Plan watchingPlanner (ConstExpr 11 (Int64Value 1)) newState) = Inr 1
   \<and> heap (snd (Plan watchingPlanner (ConstExpr 11 (Int64Value 1)) newState)) =
       [EvalConst 11 (IntVal 1), EvalOther ''watch'' [0]]"
  by (simp add: watchingPlanner_def examplePlanner_def exampleRefs_def watchDec_def
      record_call_def newState_def decorate_def planConst_def alloc_def Let_def)

text \<open>
  Claim C8, amended. A select that is not test-only and whose reference carries a
  constant is planned as that constant: \<open>planSelect\<close> builds the constant node (or
  returns the error of the conversion), decorated, without planning the operand and
  without caching an identifier. A test-only select is planned as a presence test over
  its planned operand, and a bare identifier as an identifier node, whatever the
  reference map holds for their ids.
\<close>

theorem select_with_constant_reference:
  assumes "refMap p eid = Some rf" and "ref_Value rf = Some v"
  shows "planSelect p eid operand field False s =
           (case constValue v of
              Inl err \<Rightarrow> (Inl (Error err), s)
            | Inr c \<Rightarrow>
                decorate_loop (decorators p) 0 (length (heap s))
                  (s\<lparr>heap := heap s @ [EvalConst eid c]\<rparr>))
     \<and> identMap (snd (planSelect p eid operand field False s)) = identMap s
     \<and> planSelect p eid operand field True s =
           (case Plan p operand s of
              (Inl f, s1) \<Rightarrow> (Inl f, s1)
            | (Inr op, s1) \<Rightarrow> alloc (EvalTestOnly eid field op) s1)
     \<and> planIdent p eid n s = planIdent (p\<lparr>refMap := Map.empty\<rparr>) eid n s"
proof -
  have 1: "planSelect p eid operand field False s =
           (case constValue v of
              Inl err \<Rightarrow> (Inl (Error err), s)
            | Inr c \<Rightarrow>
                decorate_loop (decorators p) 0 (length (heap s))
                  (s\<lparr>heap := heap s @ [EvalConst eid c]\<rparr>))"
    using assms by (simp add: Let_def planConst_def decorate_def alloc_def split: sum.splits)
  have 2: "identMap (snd (planSelect p eid operand field False s)) = identMap s"
    unfolding 1 by (simp add: decorate_loop_identMap split: sum.splits)
  have 3: "planSelect p eid operand field True s =
           (case Plan p operand s of
              (Inl f, s1) \<Rightarrow> (Inl f, s1)
            | (Inr op, s1) \<Rightarrow> alloc (EvalTestOnly eid field op) s1)"
    by simp
  have 4: "planIdent p eid n s = planIdent (p\<lparr>refMap := Map.empty\<rparr>) eid n s"
    by (simp add: planIdent_def)
  from 1 2 3 4 show ?thesis by blast
qed

theorem select_with_constant_reference_witness:
  "refMap examplePlanner 11 =
     Some \<lparr>ref_Name = ''pkg.E.A'', ref_OverloadId = [], ref_Value = Some (Int64Value 1)\<rparr>
   \<and> planSelect examplePlanner 11 (IdentExpr 2 ''E'') ''A'' False newState =
       (Inr 0, newState\<lparr>heap := [EvalConst 11 (IntVal 1)]\<rparr>)"
  using select_with_constant_reference [of examplePlanner 11
      "\<lparr>ref_Name = ''pkg.E.A'', ref_OverloadId = [], ref_Value = Some (Int64Value 1)\<rparr>"
      "Int64Value 1" "IdentExpr 2 ''E''" "''A''" newState]
  by (simp add: examplePlanner_def exampleRefs_def newState_def)

text \<open>
  Claim C8 as it stands fails: node 11 carries the constant 1 in the reference map,
  yet as a test-only select it is planned as a presence test over the identifier
  \<open>E\<close>, and as a bare identifier it is planned as an identifier lookup.
\<close>

theorem constant_reference_ignored_counterexample:
  "refMap examplePlanner 11 =
     Some \<lparr>ref_Name = ''pkg.E.A'', ref_OverloadId = [], ref_Value = Some (Int64Value 1)\<rparr>
   \<and> fst (Plan examplePlanner (SelectExpr 11 (IdentExpr 2 ''E'') ''A'' True) newState) = Inr 1
   \<and> heap (snd (Plan examplePlanner (SelectExpr 11 (IdentExpr 2 ''E'') ''A'' True) newState)) =
       [EvalIdent 2 ''E'' (Some ''E''), EvalTestOnly 11 ''A'' 0]
   \<and> fst (Plan examplePlanner (IdentExpr 11 ''pkg.E.A'') newState) = Inr 0
   \<and> heap (snd (Plan examplePlanner (IdentExpr 11 ''pkg.E.A'') newState)) =
       [EvalIdent 11 ''pkg.E.A'' (Some ''pkg.E.A'')]"
  by (simp add: examplePlanner_def exampleRefs_def newState_def decorate_def planIdent_def
      alloc_def Let_def)

subsection \<open>Object construction\<close>

lemma findTypeName_none:
  "\<forall>c \<in> set cs. \<not> provider_FindType p c \<Longrightarrow>
   findTypeName p cs s = (None, s\<lparr>calls := calls s @ map FindType cs\<rparr>)"
  by (induction cs arbitrary: s) (simp_all add: Let_def record_call_def)

lemma findTypeName_first:
  "\<forall>c \<in> set pre. \<not> provider_FindType p c \<Longrightarrow> provider_FindType p q \<Longrightarrow>
   findTypeName p (pre @ q # post) s = (Some q, s\<lparr>calls := calls s @ map FindType (pre @ [q])\<rparr>)"
  by (induction pre arbitrary: s) (simp_all add: Let_def record_call_def)

text \<open>
  Claim C6. For a struct with a type name, \<open>FindType\<close> is called on the candidate
  names in the order \<open>ResolveCandidateNames\<close> gives them, up to the first one found.
  When none is found, planning fails with "unknown type" and the name as written.
  Otherwise the entries are planned and the object node carries the first candidate
  found; the candidates after it are not tried.
\<close>

theorem object_type_first_candidate:
  assumes "messageName \<noteq> []" and "pkg_ResolveCandidateNames p messageName = cands"
  shows "((\<forall>c \<in> set cands. \<not> provider_FindType p c) \<longrightarrow>
            planCreateStruct p eid messageName entries s =
              (Inl (Error (UnknownType messageName)), s\<lparr>calls := calls s @ map FindType cands\<rparr>))
     \<and> (\<forall>pre q post.
            cands = pre @ q # post \<and> (\<forall>c \<in> set pre. \<not> provider_FindType p c)
              \<and> provider_FindType p q \<longrightarrow>
            planCreateStruct p eid messageName entries s =
              (case planObjEntries p entries (s\<lparr>calls := calls s @ map FindType (pre @ [q])\<rparr>) of
                 (Inl f, s2) \<Rightarrow> (Inl f, s2)
               | (Inr vals, s2) \<Rightarrow> alloc (EvalObj eid q (map GetFieldKey entries) vals) s2))"
proof -
  have A: "(\<forall>c \<in> set cands. \<not> provider_FindType p c) \<longrightarrow>
            planCreateStruct p eid messageName entries s =
              (Inl (Error (UnknownType messageName)), s\<lparr>calls := calls s @ map FindType cands\<rparr>)"
    using assms by (auto simp: findTypeName_none)
  have B: "planCreateStruct p eid messageName entries s =
              (case planObjEntries p entries (s\<lparr>calls := calls s @ map FindType (pre @ [q])\<rparr>) of
                 (Inl f, s2) \<Rightarrow> (Inl f, s2)
               | (Inr vals, s2) \<Rightarrow> alloc (EvalObj eid q (map GetFieldKey entries) vals) s2)"
    if "cands = pre @ q # post" "\<forall>c \<in> set pre. \<not> provider_FindType p c" "provider_FindType p q"
    for pre q post
    using assms that findTypeName_first [OF that(2) that(3), of post s]
    by (simp del: findTypeName.simps)
  from A B show ?thesis by blast
qed

theorem object_type_first_candidate_witness:
  "''pkg.Msg'' \<noteq> []
   \<and> pkg_ResolveCandidateNames examplePlanner ''pkg.Msg'' = [''pkg.pkg.Msg'', ''pkg.Msg'']
   \<and> planCreateStruct examplePlanner 1 ''pkg.Msg''
        [Entry (FieldKey ''f'') (ConstExpr 2 (BoolValue True))] newState =
       (Inr 1, newState\<lparr>heap := [EvalConst 2 (BoolVal True), EvalObj 1 ''pkg.Msg'' [''f''] [0]],
                        calls := [FindType ''pkg.pkg.Msg'', FindType ''pkg.Msg'']\<rparr>)
   \<and> planCreateStruct examplePlanner 1 ''Other'' [] newState =
       (Inl (Error (UnknownType ''Other'')),
        newState\<lparr>calls := [FindType ''pkg.Other'', FindType ''Other'']\<rparr>)"
  using object_type_first_candidate [of "''pkg.Msg''" examplePlanner
      "[''pkg.pkg.Msg'', ''pkg.Msg'']" 1
      "[Entry (FieldKey ''f'') (ConstExpr 2 (BoolValue True))]" newState]
    object_type_first_candidate [of "''Other''" examplePlanner "[''pkg.Other'', ''Other'']" 1 "[]"
      newState]
  by (simp add: examplePlanner_def newState_def decorate_def planConst_def alloc_def
      record_call_def Let_def)

subsection \<open>Comprehensions\<close>

lemma planExprs_fails_at:
  "planExprs p xs s = (Inr as, s1) \<Longrightarrow> Plan p e s1 = (Inl f, s2) \<Longrightarrow>
   planExprs p (xs @ e # ys) s = (Inl f, s2)"
  by (induction xs arbitrary: s as)
     (auto split: prod.splits sum.splits simp del: Plan.simps)

lemma planComprehension_planExprs:
  "planComprehension p eid iterVar iterRange accuVar accuInit loopCondition loopStep res s =
     (case planExprs p [accuInit, iterRange, loopCondition, loopStep, res] s of
        (Inl f, s') \<Rightarrow> (Inl f, s')
      | (Inr as, s') \<Rightarrow>
          alloc (EvalFold eid accuVar (as ! 0) iterVar (as ! 1) (as ! 2) (as ! 3) (as ! 4)) s')"
  by (simp split: prod.splits sum.splits del: Plan.simps)

text \<open>
  Claim C7. \<open>planComprehension\<close> plans the accumulator initializer, the iteration
  range, the loop condition, the loop step and the result, in this order, each from
  the state the one before left. When the ones before the \<open>k\<close>-th are planned and the
  \<open>k\<close>-th fails, its failure and its state are returned: nothing after it is planned.
  When all five are planned, the fold node is built from them.
\<close>

theorem comprehension_order:
  "(\<forall>k as s1 f s2.
       k < 5 \<and> planExprs p (take k [accuInit, iterRange, loopCondition, loopStep, res]) s = (Inr as, s1)
         \<and> Plan p ([accuInit, iterRange, loopCondition, loopStep, res] ! k) s1 = (Inl f, s2) \<longrightarrow>
       planComprehension p eid iterVar iterRange accuVar accuInit loopCondition loopStep res s =
         (Inl f, s2))
   \<and> (\<forall>accu range cond step result s'.
       planExprs p [accuInit, iterRange, loopCondition, loopStep, res] s =
         (Inr [accu, range, cond, step, result], s') \<longrightarrow>
       planComprehension p eid iterVar iterRange accuVar accuInit loopCondition loopStep res s =
         alloc (EvalFold eid accuVar accu iterVar range cond step result) s')"
proof -
  let ?subs = "[accuInit, iterRange, loopCondition, loopStep, res]"
  have A: "planComprehension p eid iterVar iterRange accuVar accuInit loopCondition loopStep res s =
         (Inl f, s2)"
    if k: "k < 5" and ok: "planExprs p (take k ?subs) s = (Inr as, s1)"
      and bad: "Plan p (?subs ! k) s1 = (Inl f, s2)"
    for k as s1 f s2
  proof -
    have "?subs = take k ?subs @ (?subs ! k) # drop (Suc k) ?subs"
      using k by (intro id_take_nth_drop) simp
    then have "planExprs p ?subs s = (Inl f, s2)"
      using planExprs_fails_at [OF ok bad, of "drop (Suc k) ?subs"] by simp
    then show ?thesis
      by (simp only: planComprehension_planExprs) simp
  qed
  have B: "planComprehension p eid iterVar iterRange accuVar accuInit loopCondition loopStep res s =
         alloc (EvalFold eid accuVar accu iterVar range cond step result) s'"
    if "planExprs p ?subs s = (Inr [accu, range, cond, step, result], s')"
    for accu range cond step result s'
    using that by (simp only: planComprehension_planExprs) simp
  from A B show ?thesis by blast
qed

theorem comprehension_order_witness:
  "(2::nat) < 5
   \<and> planExprs examplePlanner [ConstExpr 3 (BoolValue True), IdentExpr 2 ''r''] newState =
       (Inr [0, 1], \<lparr>identMap = [''r'' \<mapsto> 1],
          heap = [EvalConst 3 (BoolVal True), EvalIdent 2 ''r'' (Some ''r'')], calls = []\<rparr>)
   \<and> planComprehension examplePlanner 1 ''i'' (IdentExpr 2 ''r'') ''acc''
        (ConstExpr 3 (BoolValue True)) (UnsetExpr 4) (CallExpr 5 NilExpr LogicalAnd [])
        (IdentExpr 6 ''acc'') newState =
       (Inl (Error (UnsupportedExpr (UnsetExpr 4))),
        \<lparr>identMap = [''r'' \<mapsto> 1],
          heap = [EvalConst 3 (BoolVal True), EvalIdent 2 ''r'' (Some ''r'')], calls = []\<rparr>)"
  using comprehension_order [of examplePlanner "ConstExpr 3 (BoolValue True)" "IdentExpr 2 ''r''"
      "UnsetExpr 4" "CallExpr 5 NilExpr LogicalAnd []" "IdentExpr 6 ''acc''" newState 1 "''i''"
      "''acc''"]
  by (simp add: examplePlanner_def newState_def decorate_def planConst_def planIdent_def
      alloc_def Let_def)

end
